theory Spec2Isabelle
  imports Complex_Main "HOL-Library.Word"
begin

section \<open>JavaScript values used by the services\<close>

text \<open>
  A numeric field of a JavaScript object is absent (\<open>undefined\<close>), \<open>NaN\<close> or a number.
  \<open>truthy\<close> is JavaScript's conversion to a boolean on such a field: \<open>undefined\<close>, \<open>NaN\<close>
  and \<open>0\<close> are falsy. \<open>or_else a b\<close> is \<open>a || b\<close> with a numeric right operand.
\<close>

datatype 'a js = Undefined | NaN | Num 'a

fun truthy :: "'a::zero js \<Rightarrow> bool" where
  "truthy Undefined = False"
| "truthy NaN = False"
| "truthy (Num x) = (x \<noteq> 0)"

fun isNaN :: "'a js \<Rightarrow> bool" where
  "isNaN (Num x) = False"
| "isNaN _ = True"

fun js_less :: "'a::linorder js \<Rightarrow> 'a \<Rightarrow> bool" where
  "js_less (Num x) y = (x < y)"
| "js_less _ y = False"

fun or_else :: "'a::zero js \<Rightarrow> 'a \<Rightarrow> 'a" where
  "or_else (Num x) d = (if x \<noteq> 0 then x else d)"
| "or_else _ d = d"

text \<open>\<open>xs[i]\<close> on a JavaScript array: \<open>undefined\<close> (here \<open>None\<close>) outside the array.\<close>

definition js_index :: "'a list \<Rightarrow> int \<Rightarrow> 'a option" where
  "js_index xs i = (if 0 \<le> i \<and> i < int (length xs) then Some (xs ! nat i) else None)"

section \<open>Errors\<close>

text \<open>
  Every \<open>throw new Error(...)\<close> of workout-service.js, by its message; the context of an
  exercise validation message is \<open>None\<close> for the default \<open>'Exercise'\<close> and \<open>Some i\<close> for
  \<open>`Exercise ${i}`\<close>. \<open>TypeError\<close> is the property read on \<open>undefined\<close>, and
  \<open>ConstraintError\<close> the rejection of IndexedDB's \<open>add\<close> on a key that exists.
\<close>

datatype error =
    RoutineNotFound
  | WorkoutNotFoundOrNotActive
  | WorkoutNotFound
  | WorkoutNotFoundOrNotPaused
  | WorkoutOrExerciseNotFound
  | RoutineNameRequired
  | NameRequired "nat option"
  | SetsMustBePositive "nat option"
  | RepsMustBePositive "nat option"
  | WeightMustBeNonNegative "nat option"
  | RestTimeMustBeNonNegative "nat option"
  | TypeError
  | ConstraintError

section \<open>Workout service: data\<close>

datatype workout_status = Active | Paused | Completed

record exercise =
  ex_id :: string
  ex_routineId :: string
  ex_name :: string
  ex_sets :: int
  ex_reps :: int
  ex_weight :: real
  ex_restTime :: int

record routine =
  r_id :: string
  r_name :: string

record completed_set =
  setNumber :: int
  reps :: int
  weight :: real
  completedAt :: int

record exercise_progress =
  exerciseId :: string
  name :: string
  targetSets :: int
  targetReps :: int
  targetWeight :: real
  restTime :: int
  completedSets :: int
  sets :: "completed_set list"

record workout =
  wid :: string
  routineId :: string
  routineName :: string
  status :: workout_status
  currentExerciseIndex :: int
  currentSet :: int
  exercises :: "exercise_progress list"
  startTime :: int
  endTime :: "int option"
  duration :: int
  pausedAt :: "int option"
  updatedAt :: int

record set_data =
  sd_reps :: "int js"
  sd_weight :: "real js"

datatype workout_event =
    WorkoutStarted workout
  | SetCompleted string int completed_set
  | WorkoutFinished workout
  | WorkoutPaused workout
  | WorkoutResumed workout
  | ExerciseWeightUpdated string int real

text \<open>
  The database (database.js over IndexedDB): \<open>get\<close> returns a fresh copy of the stored
  record and \<open>put\<close> stores a copy, so a record read by one call is a value that later
  writes do not change. Times are milliseconds since the epoch (the ISO strings of the
  source carry exactly that); each operation reads the clock as its argument \<open>now\<close>.
  The fields that only the database writes and nothing reads (\<open>date\<close>, \<open>createdAt\<close>) are
  left out; \<open>updatedAt\<close> is kept. The service's event log stands for \<open>emit\<close>.
\<close>

record service =
  routines :: "string \<rightharpoonup> routine"
  exerciseStore :: "exercise list"
  workouts :: "string \<rightharpoonup> workout"
  emitted :: "workout_event list"

definition getExercisesByRoutine :: "service \<Rightarrow> string \<Rightarrow> exercise list" where
  "getExercisesByRoutine s rid = filter (\<lambda>e. ex_routineId e = rid) (exerciseStore s)"

definition getRoutine :: "service \<Rightarrow> string \<Rightarrow> (routine \<times> exercise list) option" where
  "getRoutine s rid =
     (case routines s rid of
        None \<Rightarrow> None
      | Some r \<Rightarrow> Some (r, getExercisesByRoutine s rid))"

definition updateWorkout :: "service \<Rightarrow> workout \<Rightarrow> int \<Rightarrow> service" where
  "updateWorkout s w now = s\<lparr>workouts := (workouts s)(wid w \<mapsto> w\<lparr>updatedAt := now\<rparr>)\<rparr>"

definition emit :: "service \<Rightarrow> workout_event \<Rightarrow> service" where
  "emit s e = s\<lparr>emitted := emitted s @ [e]\<rparr>"

section \<open>Workout service: operations\<close>

definition snapshot :: "exercise \<Rightarrow> exercise_progress" where
  "snapshot e =
     \<lparr>exerciseId = ex_id e, name = ex_name e, targetSets = ex_sets e,
      targetReps = ex_reps e, targetWeight = ex_weight e, restTime = ex_restTime e,
      completedSets = 0, sets = []\<rparr>"

text \<open>\<open>newId\<close> is the identifier that the database's \<open>generateId\<close> draws.\<close>

definition startWorkout :: "service \<Rightarrow> string \<Rightarrow> int \<Rightarrow> string \<Rightarrow> error + (service \<times> workout)" where
  "startWorkout s rid now newId =
     (case getRoutine s rid of
        None \<Rightarrow> Inl RoutineNotFound
      | Some (r, exs) \<Rightarrow>
          let w = \<lparr>wid = newId, routineId = rid, routineName = r_name r, status = Active,
                   currentExerciseIndex = 0, currentSet = 1,
                   exercises = map snapshot exs,
                   startTime = now, endTime = None, duration = 0, pausedAt = None,
                   updatedAt = now\<rparr>
          in if newId \<in> dom (workouts s) then Inl ConstraintError
             else Inr (emit (s\<lparr>workouts := (workouts s)(newId \<mapsto> w)\<rparr>) (WorkoutStarted w), w))"

definition finishWorkout :: "service \<Rightarrow> string \<Rightarrow> int \<Rightarrow> error + (service \<times> workout)" where
  "finishWorkout s i now =
     (case workouts s i of
        None \<Rightarrow> Inl WorkoutNotFound
      | Some w \<Rightarrow>
          let w' = w\<lparr>status := Completed, endTime := Some now,
                     duration := (now - startTime w) div 1000\<rparr>;
              s' = updateWorkout s w' now
          in Inr (emit s' (WorkoutFinished (w'\<lparr>updatedAt := now\<rparr>)), w'\<lparr>updatedAt := now\<rparr>))"

definition completeSet :: "service \<Rightarrow> string \<Rightarrow> set_data \<Rightarrow> int \<Rightarrow> error + (service \<times> workout)" where
  "completeSet s i sd now =
     (case workouts s i of
        None \<Rightarrow> Inl WorkoutNotFoundOrNotActive
      | Some w \<Rightarrow>
          if status w \<noteq> Active then Inl WorkoutNotFoundOrNotActive
          else (case js_index (exercises w) (currentExerciseIndex w) of
             None \<Rightarrow> Inl TypeError
           | Some cur \<Rightarrow>
               let done = \<lparr>setNumber = completedSets cur + 1,
                           reps = or_else (sd_reps sd) (targetReps cur),
                           weight = or_else (sd_weight sd) (targetWeight cur),
                           completedAt = now\<rparr>;
                   cur' = cur\<lparr>sets := sets cur @ [done], completedSets := completedSets cur + 1\<rparr>;
                   w1 = w\<lparr>exercises := (exercises w)[nat (currentExerciseIndex w) := cur']\<rparr>
               in if completedSets cur' \<ge> targetSets cur' then
                    let w2 = w1\<lparr>currentExerciseIndex := currentExerciseIndex w1 + 1, currentSet := 1\<rparr>
                    in if currentExerciseIndex w2 \<ge> int (length (exercises w2)) then
                         (case finishWorkout s i now of
                            Inl e \<Rightarrow> Inl e
                          | Inr (s', _) \<Rightarrow> Inr (s', w2))
                       else
                         Inr (emit (updateWorkout s w2 now)
                                (SetCompleted i (currentExerciseIndex w2 - 1) done),
                              w2\<lparr>updatedAt := now\<rparr>)
                  else
                    let w3 = w1\<lparr>currentSet := currentSet w1 + 1\<rparr>
                    in Inr (emit (updateWorkout s w3 now)
                              (SetCompleted i (currentExerciseIndex w3) done),
                            w3\<lparr>updatedAt := now\<rparr>)))"

definition pauseWorkout :: "service \<Rightarrow> string \<Rightarrow> int \<Rightarrow> error + (service \<times> workout)" where
  "pauseWorkout s i now =
     (case workouts s i of
        None \<Rightarrow> Inl WorkoutNotFoundOrNotActive
      | Some w \<Rightarrow>
          if status w \<noteq> Active then Inl WorkoutNotFoundOrNotActive
          else let w' = w\<lparr>status := Paused, pausedAt := Some now, updatedAt := now\<rparr>
               in Inr (emit (updateWorkout s w' now) (WorkoutPaused w'), w'))"

definition resumeWorkout :: "service \<Rightarrow> string \<Rightarrow> int \<Rightarrow> error + (service \<times> workout)" where
  "resumeWorkout s i now =
     (case workouts s i of
        None \<Rightarrow> Inl WorkoutNotFoundOrNotPaused
      | Some w \<Rightarrow>
          if status w \<noteq> Paused then Inl WorkoutNotFoundOrNotPaused
          else let w' = w\<lparr>status := Active, pausedAt := None, updatedAt := now\<rparr>
               in Inr (emit (updateWorkout s w' now) (WorkoutResumed w'), w'))"

definition updateExerciseWeight ::
  "service \<Rightarrow> string \<Rightarrow> int \<Rightarrow> real \<Rightarrow> int \<Rightarrow> error + (service \<times> workout)" where
  "updateExerciseWeight s i exerciseIndex newWeight now =
     (case workouts s i of
        None \<Rightarrow> Inl WorkoutOrExerciseNotFound
      | Some w \<Rightarrow>
          (case js_index (exercises w) exerciseIndex of
             None \<Rightarrow> Inl WorkoutOrExerciseNotFound
           | Some ex \<Rightarrow>
               let w' = w\<lparr>exercises := (exercises w)[nat exerciseIndex := ex\<lparr>targetWeight := newWeight\<rparr>],
                          updatedAt := now\<rparr>
               in Inr (emit (updateWorkout s w' now)
                         (ExerciseWeightUpdated i exerciseIndex newWeight), w')))"

definition getCurrentExercise :: "workout \<Rightarrow> exercise_progress option" where
  "getCurrentExercise w =
     (if currentExerciseIndex w \<ge> int (length (exercises w)) then None
      else js_index (exercises w) (currentExerciseIndex w))"

section \<open>Strings\<close>

text \<open>
  A JavaScript string is a sequence of UTF-16 code units; \<open>utf16\<close> gives the code units of
  a literal written in ASCII. \<open>is_space\<close> is the white space that \<open>String.prototype.trim\<close>
  and \<open>parseInt\<close> skip: the \<open>WhiteSpace\<close> and \<open>LineTerminator\<close> code points of ECMAScript
  (TAB, LF, VT, FF, CR, space, no-break space, U+1680, U+2000 to U+200A, U+2028, U+2029,
  U+202F, U+205F, U+3000 and U+FEFF), all of one code unit. \<open>trim\<close> removes white space
  at both ends.
\<close>

type_synonym code_unit = "16 word"

type_synonym js_string = "code_unit list"

definition utf16 :: "string \<Rightarrow> js_string" where
  "utf16 s = map of_char s"

definition is_space :: "code_unit \<Rightarrow> bool" where
  "is_space c =
     ((0x0009 \<le> c \<and> c \<le> 0x000D) \<or> c = 0x0020 \<or> c = 0x00A0 \<or> c = 0x1680
      \<or> (0x2000 \<le> c \<and> c \<le> 0x200A) \<or> c = 0x2028 \<or> c = 0x2029 \<or> c = 0x202F
      \<or> c = 0x205F \<or> c = 0x3000 \<or> c = 0xFEFF)"

definition trim :: "js_string \<Rightarrow> js_string" where
  "trim s = rev (dropWhile is_space (rev (dropWhile is_space s)))"

section \<open>Workout service: validation\<close>

text \<open>
  The data of a form: a name that may be absent and numeric fields that may be absent,
  \<open>NaN\<close> or a number. A field is tested only when it is truthy
  (\<open>exerciseData.sets && (...)\<close>). The exercises of a routine are typed as a list, so the
  \<open>Array.isArray\<close> test of \<open>validateRoutineData\<close> always passes.
\<close>

record exercise_data =
  ed_name :: "js_string option"
  ed_sets :: "int js"
  ed_reps :: "int js"
  ed_weight :: "real js"
  ed_restTime :: "int js"

record routine_data =
  rd_name :: "js_string option"
  rd_exercises :: "exercise_data list option"

definition name_missing :: "js_string option \<Rightarrow> bool" where
  "name_missing n = (case n of None \<Rightarrow> True | Some s \<Rightarrow> s = [] \<or> length (trim s) = 0)"

definition validateExerciseData :: "exercise_data \<Rightarrow> nat option \<Rightarrow> error + unit" where
  "validateExerciseData e ctx =
     (if name_missing (ed_name e) then Inl (NameRequired ctx)
      else if truthy (ed_sets e) \<and> (isNaN (ed_sets e) \<or> js_less (ed_sets e) 1)
        then Inl (SetsMustBePositive ctx)
      else if truthy (ed_reps e) \<and> (isNaN (ed_reps e) \<or> js_less (ed_reps e) 1)
        then Inl (RepsMustBePositive ctx)
      else if truthy (ed_weight e) \<and> (isNaN (ed_weight e) \<or> js_less (ed_weight e) 0)
        then Inl (WeightMustBeNonNegative ctx)
      else if truthy (ed_restTime e) \<and> (isNaN (ed_restTime e) \<or> js_less (ed_restTime e) 0)
        then Inl (RestTimeMustBeNonNegative ctx)
      else Inr ())"

text \<open>The \<open>forEach\<close> of \<open>validateRoutineData\<close>: the first exercise that fails throws.\<close>

fun validateExercises :: "exercise_data list \<Rightarrow> nat \<Rightarrow> error + unit" where
  "validateExercises [] index = Inr ()"
| "validateExercises (e # es) index =
     (case validateExerciseData e (Some (index + 1)) of
        Inl err \<Rightarrow> Inl err
      | Inr _ \<Rightarrow> validateExercises es (index + 1))"

definition validateRoutineData :: "routine_data \<Rightarrow> error + unit" where
  "validateRoutineData r =
     (if name_missing (rd_name r) then Inl RoutineNameRequired
      else (case rd_exercises r of
              None \<Rightarrow> Inr ()
            | Some es \<Rightarrow> validateExercises es 0))"

section \<open>Timer service: formatting and parsing times\<close>

text \<open>
  Numbers are IEEE 754 doubles. A number whose value is an integer is modelled by that
  value, an \<open>int\<close>; the integers that are numbers are those \<open>round_int\<close> leaves unchanged:
  every integer of magnitude up to \<open>2 ^ 53\<close>, and beyond it those with at most 53
  significant bits. \<open>bitlen\<close> is the length of the binary notation, \<open>round_half_even p q\<close>
  the integer nearest to \<open>p / q\<close>, the even one of two; \<open>round_mag\<close> rounds to 53
  significant bits, which is how the exact result of an arithmetic operation becomes a
  number. \<open>Infinity\<close> is left out: all magnitudes here stay below \<open>2 ^ 1024\<close>.
\<close>

function bitlen :: "int \<Rightarrow> nat" where
  "bitlen n = (if n \<le> 0 then 0 else Suc (bitlen (n div 2)))"
  by pat_completeness auto

termination
  by (relation "measure nat") auto

declare bitlen.simps [simp del]

definition round_half_even :: "int \<Rightarrow> int \<Rightarrow> int" where
  "round_half_even p q =
     (let d = p div q; r = p mod q
      in if 2 * r < q \<or> (2 * r = q \<and> even d) then d else d + 1)"

definition round_mag :: "int \<Rightarrow> int" where
  "round_mag v = (let e = bitlen v - 53 in round_half_even v (2 ^ e) * 2 ^ e)"

definition round_int :: "int \<Rightarrow> int" where
  "round_int v = sgn v * round_mag \<bar>v\<bar>"

text \<open>
  \<open>floor_quotient a b\<close> is \<open>Math.floor(a / b)\<close> for a divisor \<open>b > 0\<close>: the quotient is
  rounded to the number \<open>m * 2 ^ e\<close> with \<open>2 ^ 52 \<le> m \<le> 2 ^ 53\<close>, then floored. \<open>js_rem\<close> is
  the \<open>%\<close> operator (the sign of the dividend), which is exact.
\<close>

definition floor_quotient :: "int \<Rightarrow> int \<Rightarrow> int" where
  "floor_quotient a b =
     (if a = 0 then 0
      else let n = \<bar>a\<bar>;
               e0 = int (bitlen n) - int (bitlen b) - 53;
               e = (if n * 2 ^ nat (- e0) < 2 ^ 53 * b * 2 ^ nat e0 then e0 else e0 + 1);
               m = round_half_even (n * 2 ^ nat (- e)) (b * 2 ^ nat e)
           in (sgn a * m * 2 ^ nat e) div 2 ^ nat (- e))"

definition js_rem :: "int \<Rightarrow> int \<Rightarrow> int" where
  "js_rem a b = sgn a * (\<bar>a\<bar> mod \<bar>b\<bar>)"

text \<open>
  \<open>toString\<close> is \<open>Number.prototype.toString\<close> on an integer-valued number. The digits
  printed are the shortest that read back as the same number: \<open>shortest x\<close> is the printed
  value, the multiple of the greatest power of ten that rounds to \<open>x\<close> (the nearer to \<open>x\<close>
  of two, the even one at equal distance), searched from one significant digit upwards.
  A value of at most 21 digits is printed in full; a longer one in exponent notation,
  \<open>d.ddde+n\<close>. \<open>padStart2\<close> is \<open>padStart(2, '0')\<close>.
\<close>

definition digit_char :: "int \<Rightarrow> code_unit" where
  "digit_char d = of_int (48 + d)"

function to_digits :: "int \<Rightarrow> js_string" where
  "to_digits n = (if n < 10 then [digit_char n] else to_digits (n div 10) @ [digit_char (n mod 10)])"
  by pat_completeness auto

termination
  by (relation "measure nat") auto

declare to_digits.simps [simp del]

fun shortest_from :: "int \<Rightarrow> nat \<Rightarrow> int" where
  "shortest_from x 0 = x"
| "shortest_from x (Suc j) =
     (let u = 10 ^ Suc j; lo = x div u * u; hi = lo + u;
          lo_ok = (round_mag lo = x); hi_ok = (round_mag hi = x)
      in if lo_ok \<and> (\<not> hi_ok \<or> x - lo < hi - x \<or> (x - lo = hi - x \<and> even (x div u)))
         then lo
         else if hi_ok then hi
         else shortest_from x j)"

definition shortest :: "int \<Rightarrow> int" where
  "shortest x = shortest_from x (length (to_digits x) - 1)"

definition strip_zeros :: "js_string \<Rightarrow> js_string" where
  "strip_zeros ds = rev (dropWhile (\<lambda>c. c = 0x30) (rev ds))"

definition number_to_string :: "int \<Rightarrow> js_string" where
  "number_to_string x =
     (if x = 0 then utf16 ''0''
      else let ds = to_digits (shortest x); n = length ds
           in if n \<le> 21 then ds
              else (case strip_zeros ds of
                      [] \<Rightarrow> []
                    | [d] \<Rightarrow> d # utf16 ''e+'' @ to_digits (int n - 1)
                    | d # ds' \<Rightarrow> d # utf16 ''.'' @ ds' @ utf16 ''e+'' @ to_digits (int n - 1)))"

definition toString :: "int \<Rightarrow> js_string" where
  "toString n = (if n < 0 then utf16 ''-'' @ number_to_string (- n)
                 else number_to_string n)"

definition padStart2 :: "js_string \<Rightarrow> js_string" where
  "padStart2 s = replicate (2 - length s) 0x30 @ s"

definition formatTime :: "int \<Rightarrow> bool \<Rightarrow> js_string" where
  "formatTime seconds includeHours =
     (let hours = floor_quotient seconds 3600;
          minutes = floor_quotient (js_rem seconds 3600) 60;
          secs = js_rem seconds 60
      in if includeHours \<or> hours > 0
         then padStart2 (toString hours) @ utf16 '':'' @ padStart2 (toString minutes)
              @ utf16 '':'' @ padStart2 (toString secs)
         else padStart2 (toString minutes) @ utf16 '':'' @ padStart2 (toString secs))"

text \<open>
  \<open>split_on c s\<close> is \<open>s.split(c)\<close>. \<open>parseInt\<close> is \<open>parseInt(s, 10)\<close>: leading white
  space, an optional sign, then the longest run of decimal digits, whose value is
  rounded to a number; \<open>NaN\<close> when there is no digit. Sums and products are rounded;
  arithmetic on \<open>NaN\<close> gives \<open>NaN\<close>.
\<close>

fun split_on :: "code_unit \<Rightarrow> js_string \<Rightarrow> js_string list" where
  "split_on c [] = [[]]"
| "split_on c (x # xs) =
     (if x = c then [] # split_on c xs
      else (case split_on c xs of
              [] \<Rightarrow> [[x]]
            | p # ps \<Rightarrow> (x # p) # ps))"

definition is_digit :: "code_unit \<Rightarrow> bool" where
  "is_digit c = (0x30 \<le> c \<and> c \<le> 0x39)"

definition digit_val :: "code_unit \<Rightarrow> int" where
  "digit_val c = uint c - 48"

fun parse_digits :: "int \<Rightarrow> js_string \<Rightarrow> int" where
  "parse_digits acc [] = acc"
| "parse_digits acc (c # cs) =
     (if is_digit c then parse_digits (acc * 10 + digit_val c) cs else acc)"

fun parse_signed :: "js_string \<Rightarrow> int js" where
  "parse_signed [] = NaN"
| "parse_signed (c # cs) =
     (if c = 0x2D then
        (case cs of [] \<Rightarrow> NaN
         | d # _ \<Rightarrow> if is_digit d then Num (round_int (- parse_digits 0 cs)) else NaN)
      else if c = 0x2B then
        (case cs of [] \<Rightarrow> NaN
         | d # _ \<Rightarrow> if is_digit d then Num (round_int (parse_digits 0 cs)) else NaN)
      else if is_digit c then Num (round_int (parse_digits 0 (c # cs)))
      else NaN)"

definition parseInt :: "js_string \<Rightarrow> int js" where
  "parseInt s = parse_signed (dropWhile is_space s)"

fun js_add :: "int js \<Rightarrow> int js \<Rightarrow> int js" where
  "js_add (Num a) (Num b) = Num (round_int (a + b))"
| "js_add _ _ = NaN"

fun js_times :: "int js \<Rightarrow> int \<Rightarrow> int js" where
  "js_times (Num a) b = Num (round_int (a * b))"
| "js_times _ b = NaN"

definition parseTime :: "js_string \<Rightarrow> int js" where
  "parseTime timeString =
     (case map parseInt (split_on 0x3A timeString) of
        [m, s] \<Rightarrow> js_add (js_times m 60) s
      | [h, m, s] \<Rightarrow> js_add (js_add (js_times h 3600) (js_times m 60)) s
      | _ \<Rightarrow> Num 0)"

section \<open>Timer service: data\<close>

text \<open>
  A timer identifier is the string \<open>`timer_${nextTimerId++}_${Date.now()}`\<close>: the pair of
  the counter and the clock reading. A timer is an object that \<open>activeTimers\<close> maps its key
  to and that the closure of \<open>startMainThreadTimer\<close> keeps after the key is deleted, so the
  service holds the objects (\<open>objs\<close>, by the key each was created under; the counter makes
  every key new) apart from the keys of the map (\<open>activeTimers\<close>, in insertion order). The
  \<open>id\<close> field of an object is its key unless the options given to the start call carry an
  \<open>id\<close> of their own. Fields that no code path reads (\<open>name\<close>, the notification flags and
  \<open>realElapsed\<close> on a timer object) are left out.
\<close>

type_synonym timer_id = "nat \<times> int"

datatype timer_type = Countdown | Stopwatch

datatype timer_status = Running | Halted

record timer =
  t_id :: timer_id
  t_type :: timer_type
  t_duration :: int
  t_remaining :: int
  t_elapsed :: int
  t_status :: timer_status
  t_startTime :: int
  t_pausedTime :: "int option"
  t_intervalId :: "nat option"

text \<open>
  The \<open>options\<close> argument of a start call. It is spread into the new timer object after
  the defaults (\<open>{id: ..., ..., startTime: Date.now(), ...options}\<close>), so every field it
  carries replaces the default.
\<close>

record timer_options =
  o_id :: "timer_id option"
  o_type :: "timer_type option"
  o_duration :: "int option"
  o_remaining :: "int option"
  o_elapsed :: "int option"
  o_status :: "timer_status option"
  o_startTime :: "int option"
  o_pausedTime :: "int option"
  o_intervalId :: "nat option"
  o_autoNotify :: "bool option"
  o_vibrate :: "bool option"
  o_sound :: "bool option"

definition no_options :: timer_options where
  "no_options = \<lparr>o_id = None, o_type = None, o_duration = None, o_remaining = None,
     o_elapsed = None, o_status = None, o_startTime = None, o_pausedTime = None,
     o_intervalId = None, o_autoNotify = None, o_vibrate = None, o_sound = None\<rparr>"

fun override :: "'a option \<Rightarrow> 'a \<Rightarrow> 'a" where
  "override None d = d"
| "override (Some v) d = v"

fun override_opt :: "'a option \<Rightarrow> 'a option \<Rightarrow> 'a option" where
  "override_opt None d = d"
| "override_opt (Some v) d = Some v"

definition spread :: "timer \<Rightarrow> timer_options \<Rightarrow> timer" where
  "spread t opts =
     \<lparr>t_id = override (o_id opts) (t_id t),
      t_type = override (o_type opts) (t_type t),
      t_duration = override (o_duration opts) (t_duration t),
      t_remaining = override (o_remaining opts) (t_remaining t),
      t_elapsed = override (o_elapsed opts) (t_elapsed t),
      t_status = override (o_status opts) (t_status t),
      t_startTime = override (o_startTime opts) (t_startTime t),
      t_pausedTime = override_opt (o_pausedTime opts) (t_pausedTime t),
      t_intervalId = override_opt (o_intervalId opts) (t_intervalId t)\<rparr>"

text \<open>Options that carry none of the fields of a timer, such as \<open>{}\<close>.\<close>

definition carries_no_field :: "timer_options \<Rightarrow> bool" where
  "carries_no_field opts =
     (o_id opts = None \<and> o_type opts = None \<and> o_duration opts = None
      \<and> o_remaining opts = None \<and> o_elapsed opts = None \<and> o_status opts = None
      \<and> o_startTime opts = None \<and> o_pausedTime opts = None \<and> o_intervalId opts = None)"

text \<open>The messages of the worker channel, and the worker's own record of a timer.\<close>

datatype worker_msg =
    WStart timer_id timer_type int
  | WPause timer_id
  | WResume timer_id
  | WStop timer_id

datatype main_msg =
    MTick timer_id int int
  | MComplete timer_id

record w_timer =
  w_type :: timer_type
  w_duration :: int
  w_remaining :: int
  w_elapsed :: int
  w_active :: bool

datatype timer_event =
    Tick timer_id int int
  | Complete timer_id
  | PausedEvent timer_id
  | ResumedEvent timer_id
  | StoppedEvent timer_id
  | RestHalfway timer_id int
  | RestCountdown timer_id int
  | RestComplete timer_id

text \<open>
  The pair of listeners that \<open>setupRestNotifications\<close> registers, by what its closures
  capture. Vibration and sound are effects outside the service and are not modelled.
\<close>

record rest_hook =
  h_timerId :: timer_id
  h_halfTime :: int

text \<open>
  The whole service with its worker. \<open>useWorker\<close> is \<open>isWorkerSupported && worker\<close>.
  \<open>toWorker\<close> and \<open>toMain\<close> are the messages posted and not yet received, in order;
  \<open>w_timeouts\<close> and \<open>m_timeouts\<close> are the pending \<open>setTimeout\<close> callbacks of the worker and
  of the main thread, in firing order (all have the same delay): for the worker the timer
  the callback updates, for the main thread the handle and the timer object of the
  closure. \<open>events\<close> is the log of \<open>emit\<close>.
\<close>

record timer_service =
  objs :: "timer_id \<rightharpoonup> timer"
  activeTimers :: "timer_id list"
  useWorker :: bool
  nextTimerId :: nat
  toWorker :: "worker_msg list"
  toMain :: "main_msg list"
  w_timers :: "timer_id \<rightharpoonup> w_timer"
  w_timeouts :: "timer_id list"
  m_timeouts :: "(nat \<times> timer_id) list"
  nextHandle :: nat
  restHooks :: "rest_hook list"
  events :: "timer_event list"

definition new_service :: "bool \<Rightarrow> timer_service" where
  "new_service worker =
     \<lparr>objs = Map.empty, activeTimers = [], useWorker = worker, nextTimerId = 1,
      toWorker = [], toMain = [], w_timers = Map.empty, w_timeouts = [], m_timeouts = [],
      nextHandle = 1, restHooks = [], events = []\<rparr>"

section \<open>Timer service: events\<close>

text \<open>
  \<open>emit\<close> logs the event and calls the listeners in subscription order. The listeners
  modelled are those the service registers itself, in \<open>setupRestNotifications\<close>.
\<close>

definition on_tick :: "rest_hook \<Rightarrow> timer_id \<Rightarrow> int \<Rightarrow> timer_event list" where
  "on_tick h i remaining =
     (if i \<noteq> h_timerId h then []
      else (if remaining = h_halfTime h \<and> h_halfTime h > 10
            then [RestHalfway (h_timerId h) remaining] else [])
         @ (if remaining \<le> 10 \<and> remaining > 0
            then [RestCountdown (h_timerId h) remaining] else []))"

definition on_complete :: "rest_hook \<Rightarrow> timer_id \<Rightarrow> timer_event list" where
  "on_complete h i = (if i \<noteq> h_timerId h then [] else [RestComplete (h_timerId h)])"

definition emit_tick :: "timer_service \<Rightarrow> timer_id \<Rightarrow> int \<Rightarrow> int \<Rightarrow> timer_service" where
  "emit_tick s i remaining elapsed =
     s\<lparr>events := events s @ Tick i remaining elapsed
          # concat (map (\<lambda>h. on_tick h i remaining) (restHooks s))\<rparr>"

definition emit_complete :: "timer_service \<Rightarrow> timer_id \<Rightarrow> timer_service" where
  "emit_complete s i =
     s\<lparr>events := events s @ Complete i # concat (map (\<lambda>h. on_complete h i) (restHooks s))\<rparr>"

definition emit_plain :: "timer_service \<Rightarrow> timer_event \<Rightarrow> timer_service" where
  "emit_plain s e = s\<lparr>events := events s @ [e]\<rparr>"

section \<open>Timer service: the worker script\<close>

definition postMessage :: "timer_service \<Rightarrow> main_msg \<Rightarrow> timer_service" where
  "postMessage s m = s\<lparr>toMain := toMain s @ [m]\<rparr>"

definition w_updateTimer :: "timer_service \<Rightarrow> timer_id \<Rightarrow> timer_service" where
  "w_updateTimer s i =
     (case w_timers s i of
        None \<Rightarrow> s
      | Some t \<Rightarrow>
          (case w_type t of
             Countdown \<Rightarrow>
               let t' = t\<lparr>w_remaining := w_remaining t - 1\<rparr>;
                   s1 = postMessage (s\<lparr>w_timers := (w_timers s)(i \<mapsto> t')\<rparr>)
                          (MTick i (w_remaining t') (w_duration t' - w_remaining t'))
               in if w_remaining t' \<le> 0
                  then (postMessage s1 (MComplete i))\<lparr>w_timers := (w_timers s1)(i := None)\<rparr>
                  else s1\<lparr>w_timeouts := w_timeouts s1 @ [i]\<rparr>
           | Stopwatch \<Rightarrow>
               let t' = t\<lparr>w_elapsed := w_elapsed t + 1\<rparr>;
                   s1 = postMessage (s\<lparr>w_timers := (w_timers s)(i \<mapsto> t')\<rparr>)
                          (MTick i 0 (w_elapsed t'))
               in s1\<lparr>w_timeouts := w_timeouts s1 @ [i]\<rparr>))"

fun w_onmessage :: "timer_service \<Rightarrow> worker_msg \<Rightarrow> timer_service" where
  "w_onmessage s (WStart i ty d) =
     w_updateTimer
       (s\<lparr>w_timers := (w_timers s)(i \<mapsto>
            \<lparr>w_type = ty, w_duration = d,
             w_remaining = (if ty = Countdown then d else 0), w_elapsed = 0,
             w_active = True\<rparr>)\<rparr>) i"
| "w_onmessage s (WPause i) =
     (case w_timers s i of
        None \<Rightarrow> s
      | Some t \<Rightarrow> s\<lparr>w_timers := (w_timers s)(i \<mapsto> t\<lparr>w_active := False\<rparr>)\<rparr>)"
| "w_onmessage s (WResume i) =
     (case w_timers s i of
        None \<Rightarrow> s
      | Some t \<Rightarrow> w_updateTimer (s\<lparr>w_timers := (w_timers s)(i \<mapsto> t\<lparr>w_active := True\<rparr>)\<rparr>) i)"
| "w_onmessage s (WStop i) = s\<lparr>w_timers := (w_timers s)(i := None)\<rparr>"

section \<open>Timer service: the main thread\<close>

definition handleWorkerMessage :: "timer_service \<Rightarrow> main_msg \<Rightarrow> timer_service" where
  "handleWorkerMessage s m =
     (case m of
        MTick i remaining elapsed \<Rightarrow>
          (if i \<notin> set (activeTimers s) then s
           else case objs s i of
             None \<Rightarrow> s
           | Some t \<Rightarrow>
               emit_tick (s\<lparr>objs := (objs s)(i \<mapsto> t\<lparr>t_remaining := remaining, t_elapsed := elapsed\<rparr>)\<rparr>)
                 i remaining elapsed)
      | MComplete i \<Rightarrow>
          (if i \<notin> set (activeTimers s) then s
           else (emit_complete s i)\<lparr>activeTimers := removeAll i (activeTimers s)\<rparr>))"

definition set_key :: "timer_id list \<Rightarrow> timer_id \<Rightarrow> timer_id list" where
  "set_key ks k = (if k \<in> set ks then ks else ks @ [k])"

text \<open>
  \<open>startMainThreadTimer\<close> schedules the closure \<open>updateTimer\<close> over the object of key \<open>k\<close>
  and stores the handle in the object; \<open>m_updateTimer\<close> is that closure.
\<close>

definition schedule :: "timer_service \<Rightarrow> timer_id \<Rightarrow> timer_service" where
  "schedule s k =
     (case objs s k of
        None \<Rightarrow> s
      | Some t \<Rightarrow>
          s\<lparr>m_timeouts := m_timeouts s @ [(nextHandle s, k)],
            nextHandle := nextHandle s + 1,
            objs := (objs s)(k \<mapsto> t\<lparr>t_intervalId := Some (nextHandle s)\<rparr>)\<rparr>)"

definition startMainThreadTimer :: "timer_service \<Rightarrow> timer_id \<Rightarrow> timer_service" where
  "startMainThreadTimer s k = schedule s k"

definition m_updateTimer :: "timer_service \<Rightarrow> timer_id \<Rightarrow> timer_service" where
  "m_updateTimer s k =
     (case objs s k of
        None \<Rightarrow> s
      | Some t \<Rightarrow>
          if t_id t \<notin> set (activeTimers s) \<or> t_status t \<noteq> Running then s
          else (case t_type t of
             Countdown \<Rightarrow>
               let t' = t\<lparr>t_remaining := t_remaining t - 1,
                          t_elapsed := t_duration t - (t_remaining t - 1)\<rparr>;
                   s1 = emit_tick (s\<lparr>objs := (objs s)(k \<mapsto> t')\<rparr>)
                          (t_id t') (t_remaining t') (t_elapsed t')
               in if t_remaining t' \<le> 0
                  then (emit_complete s1 (t_id t'))
                         \<lparr>activeTimers := removeAll (t_id t') (activeTimers s1)\<rparr>
                  else schedule s1 k
           | Stopwatch \<Rightarrow>
               let t' = t\<lparr>t_elapsed := t_elapsed t + 1\<rparr>;
                   s1 = emit_tick (s\<lparr>objs := (objs s)(k \<mapsto> t')\<rparr>) (t_id t') 0 (t_elapsed t')
               in schedule s1 k))"

definition clearTimeout :: "timer_service \<Rightarrow> nat \<Rightarrow> timer_service" where
  "clearTimeout s h = s\<lparr>m_timeouts := filter (\<lambda>(h', k). h' \<noteq> h) (m_timeouts s)\<rparr>"

definition post :: "timer_service \<Rightarrow> worker_msg \<Rightarrow> timer_service" where
  "post s m = s\<lparr>toWorker := toWorker s @ [m]\<rparr>"

definition generateTimerId :: "timer_service \<Rightarrow> int \<Rightarrow> timer_service \<times> timer_id" where
  "generateTimerId s now = (s\<lparr>nextTimerId := nextTimerId s + 1\<rparr>, (nextTimerId s, now))"

definition startCountdown ::
  "timer_service \<Rightarrow> int \<Rightarrow> timer_options \<Rightarrow> int \<Rightarrow> timer_service \<times> timer_id" where
  "startCountdown s dur opts now =
     (let (s1, timerId) = generateTimerId s now;
          t = spread \<lparr>t_id = timerId, t_type = Countdown, t_duration = dur,
                      t_remaining = dur, t_elapsed = 0, t_status = Running,
                      t_startTime = now, t_pausedTime = None, t_intervalId = None\<rparr> opts;
          s2 = s1\<lparr>objs := (objs s1)(timerId \<mapsto> t),
                  activeTimers := set_key (activeTimers s1) timerId\<rparr>
      in if useWorker s2 then (post s2 (WStart timerId Countdown dur), timerId)
         else (startMainThreadTimer s2 timerId, timerId))"

definition startStopwatch ::
  "timer_service \<Rightarrow> timer_options \<Rightarrow> int \<Rightarrow> timer_service \<times> timer_id" where
  "startStopwatch s opts now =
     (let (s1, timerId) = generateTimerId s now;
          t = spread \<lparr>t_id = timerId, t_type = Stopwatch, t_duration = 0,
                      t_remaining = 0, t_elapsed = 0, t_status = Running,
                      t_startTime = now, t_pausedTime = None, t_intervalId = None\<rparr> opts;
          s2 = s1\<lparr>objs := (objs s1)(timerId \<mapsto> t),
                  activeTimers := set_key (activeTimers s1) timerId\<rparr>
      in if useWorker s2 then (post s2 (WStart timerId Stopwatch 0), timerId)
         else (startMainThreadTimer s2 timerId, timerId))"

definition getTimer :: "timer_service \<Rightarrow> timer_id \<Rightarrow> timer option" where
  "getTimer s i = (if i \<in> set (activeTimers s) then objs s i else None)"

definition pause :: "timer_service \<Rightarrow> timer_id \<Rightarrow> int \<Rightarrow> timer_service \<times> bool" where
  "pause s i now =
     (case getTimer s i of
        None \<Rightarrow> (s, False)
      | Some t \<Rightarrow>
          if t_status t \<noteq> Running then (s, False)
          else
            let t1 = t\<lparr>t_status := Halted, t_pausedTime := Some now\<rparr>;
                s1 = s\<lparr>objs := (objs s)(i \<mapsto> t1)\<rparr>;
                s2 = (if useWorker s1 then post s1 (WPause i)
                      else (case t_intervalId t1 of
                              None \<Rightarrow> s1
                            | Some h \<Rightarrow>
                                if h = 0 then s1
                                else (clearTimeout s1 h)
                                       \<lparr>objs := (objs s1)(i \<mapsto> t1\<lparr>t_intervalId := None\<rparr>)\<rparr>))
            in (emit_plain s2 (PausedEvent i), True))"


definition stop :: "timer_service \<Rightarrow> timer_id \<Rightarrow> timer_service \<times> bool" where
  "stop s i =
     (case getTimer s i of
        None \<Rightarrow> (s, False)
      | Some t \<Rightarrow>
          let s1 = (if useWorker s then post s (WStop i)
                    else (case t_intervalId t of
                            None \<Rightarrow> s
                          | Some h \<Rightarrow> if h = 0 then s else clearTimeout s h))
          in (emit_plain (s1\<lparr>activeTimers := removeAll i (activeTimers s1)\<rparr>) (StoppedEvent i),
              True))"

section \<open>Timer service: rest timers\<close>



section \<open>Timer service: saving and restoring\<close>

record saved_timer = timer +
  realElapsed :: int

record timer_state =
  st_timers :: "(timer_id \<times> saved_timer) list"
  st_timestamp :: int

definition save_one :: "timer \<Rightarrow> int \<Rightarrow> saved_timer" where
  "save_one t now =
     \<lparr>t_id = t_id t, t_type = t_type t, t_duration = t_duration t,
      t_remaining = t_remaining t, t_elapsed = t_elapsed t, t_status = t_status t,
      t_startTime = t_startTime t, t_pausedTime = t_pausedTime t,
      t_intervalId = t_intervalId t,
      realElapsed = (now - t_startTime t) div 1000\<rparr>"

definition saveState :: "timer_service \<Rightarrow> int \<Rightarrow> timer_state" where
  "saveState s now =
     \<lparr>st_timers = concat (map (\<lambda>k. case objs s k of
                                     None \<Rightarrow> []
                                   | Some t \<Rightarrow> [(k, save_one t now)]) (activeTimers s)),
      st_timestamp = now\<rparr>"

text \<open>\<open>{...timerData}\<close> as options: every field of the saved timer is carried.\<close>

definition as_options :: "saved_timer \<Rightarrow> timer_options" where
  "as_options d =
     \<lparr>o_id = Some (t_id d), o_type = Some (t_type d), o_duration = Some (t_duration d),
      o_remaining = Some (t_remaining d), o_elapsed = Some (t_elapsed d),
      o_status = Some (t_status d), o_startTime = Some (t_startTime d),
      o_pausedTime = t_pausedTime d, o_intervalId = t_intervalId d,
      o_autoNotify = None, o_vibrate = None, o_sound = None\<rparr>"

definition restore_one :: "int \<Rightarrow> int \<Rightarrow> timer_service \<Rightarrow> timer_id \<times> saved_timer \<Rightarrow> timer_service" where
  "restore_one timeLapsed now s entry =
     (case entry of (timerId, timerData) \<Rightarrow>
        if t_status timerData = Running then
          let adjustedElapsed = realElapsed timerData + timeLapsed
          in (case t_type timerData of
                Countdown \<Rightarrow>
                  let remaining = t_duration timerData - adjustedElapsed
                  in if remaining > 0
                     then fst (startCountdown s remaining
                                 ((as_options timerData)\<lparr>o_id := Some timerId\<rparr>) now)
                     else emit_complete s timerId
              | Stopwatch \<Rightarrow>
                  (case startStopwatch s (as_options timerData) now of
                     (s1, newTimerId) \<Rightarrow>
                       (case getTimer s1 newTimerId of
                          None \<Rightarrow> s1
                        | Some t \<Rightarrow>
                            s1\<lparr>objs := (objs s1)(newTimerId \<mapsto> t\<lparr>t_elapsed := adjustedElapsed\<rparr>)\<rparr>)))
        else s)"

definition restoreState :: "timer_service \<Rightarrow> timer_state option \<Rightarrow> int \<Rightarrow> timer_service" where
  "restoreState s state now =
     (case state of
        None \<Rightarrow> s
      | Some st \<Rightarrow>
          foldl (restore_one ((now - st_timestamp st) div 1000) now) s (st_timers st))"

section \<open>Timer service: scheduling\<close>

text \<open>
  The events that happen between the calls of the service: the worker receives a message
  or runs a timeout callback, the main thread receives a message or runs a timeout
  callback. \<open>step\<close> takes them in the order of a browser in which a message arrives
  before the next one-second timeout fires; \<open>idle\<close> says that nothing is pending.
\<close>

definition worker_receive :: "timer_service \<Rightarrow> timer_service" where
  "worker_receive s =
     (case toWorker s of
        [] \<Rightarrow> s
      | m # ms \<Rightarrow> w_onmessage (s\<lparr>toWorker := ms\<rparr>) m)"

definition main_receive :: "timer_service \<Rightarrow> timer_service" where
  "main_receive s =
     (case toMain s of
        [] \<Rightarrow> s
      | m # ms \<Rightarrow> handleWorkerMessage (s\<lparr>toMain := ms\<rparr>) m)"

definition worker_timeout :: "timer_service \<Rightarrow> timer_service" where
  "worker_timeout s =
     (case w_timeouts s of
        [] \<Rightarrow> s
      | i # is \<Rightarrow> w_updateTimer (s\<lparr>w_timeouts := is\<rparr>) i)"

definition main_timeout :: "timer_service \<Rightarrow> timer_service" where
  "main_timeout s =
     (case m_timeouts s of
        [] \<Rightarrow> s
      | (h, k) # hs \<Rightarrow> m_updateTimer (s\<lparr>m_timeouts := hs\<rparr>) k)"

definition idle :: "timer_service \<Rightarrow> bool" where
  "idle s = (toWorker s = [] \<and> toMain s = [] \<and> w_timeouts s = [] \<and> m_timeouts s = [])"

definition step :: "timer_service \<Rightarrow> timer_service" where
  "step s =
     (if toWorker s \<noteq> [] then worker_receive s
      else if toMain s \<noteq> [] then main_receive s
      else if w_timeouts s \<noteq> [] then worker_timeout s
      else main_timeout s)"

fun run :: "nat \<Rightarrow> timer_service \<Rightarrow> timer_service" where
  "run 0 s = s"
| "run (Suc n) s = run n (step s)"

text \<open>
  What one tick and one \<open>complete\<close> add to the log, given the listeners registered, and the
  log of a countdown from \<open>remaining = n\<close> to its end: the ticks \<open>n - 1, ..., 0\<close>, each with
  \<open>elapsed = duration - remaining\<close>, then \<open>complete\<close>.
\<close>

definition tick_log :: "rest_hook list \<Rightarrow> timer_id \<Rightarrow> int \<Rightarrow> int \<Rightarrow> timer_event list" where
  "tick_log hooks i remaining elapsed =
     Tick i remaining elapsed # concat (map (\<lambda>h. on_tick h i remaining) hooks)"

definition complete_log :: "rest_hook list \<Rightarrow> timer_id \<Rightarrow> timer_event list" where
  "complete_log hooks i = Complete i # concat (map (\<lambda>h. on_complete h i) hooks)"




section \<open>Timer service: the states a service reaches\<close>





section \<open>Sequences of engine operations and the session invariant\<close>








section \<open>Scenarios\<close>

text \<open>
  A routine of two exercises with two sets each, a session started from it at time 1000
  under the identifier \<open>w1\<close>, and \<open>completeSet\<close> called on it three and four times.
\<close>

definition squat :: exercise where
  "squat = \<lparr>ex_id = ''e1'', ex_routineId = ''r1'', ex_name = ''Squat'', ex_sets = 2,
             ex_reps = 5, ex_weight = 40, ex_restTime = 60\<rparr>"

definition press :: exercise where
  "press = \<lparr>ex_id = ''e2'', ex_routineId = ''r1'', ex_name = ''Press'', ex_sets = 2,
             ex_reps = 8, ex_weight = 20, ex_restTime = 90\<rparr>"

definition gym :: service where
  "gym = \<lparr>routines = [''r1'' \<mapsto> \<lparr>r_id = ''r1'', r_name = ''Legs''\<rparr>],
           exerciseStore = [squat, press], workouts = Map.empty, emitted = []\<rparr>"

definition as_logged :: set_data where
  "as_logged = \<lparr>sd_reps = Num 5, sd_weight = Num 40\<rparr>"

definition zeroes :: set_data where
  "zeroes = \<lparr>sd_reps = Num 0, sd_weight = Num 0\<rparr>"

fun and_then ::
  "error + (service \<times> workout) \<Rightarrow> (service \<Rightarrow> error + (service \<times> workout)) \<Rightarrow>
   error + (service \<times> workout)" where
  "and_then (Inl e) f = Inl e"
| "and_then (Inr (s, w)) f = f s"

definition started :: "error + (service \<times> workout)" where
  "started = startWorkout gym ''r1'' 1000 ''w1''"

definition three_sets :: "error + (service \<times> workout)" where
  "three_sets =
     and_then (and_then (and_then started
       (\<lambda>s. completeSet s ''w1'' as_logged 2000))
       (\<lambda>s. completeSet s ''w1'' as_logged 3000))
       (\<lambda>s. completeSet s ''w1'' as_logged 4000)"

definition full_workout :: "error + (service \<times> workout)" where
  "full_workout = and_then three_sets (\<lambda>s. completeSet s ''w1'' as_logged 5000)"




text \<open>A form with a name, zero sets and zero reps.\<close>

definition zero_sets_form :: exercise_data where
  "zero_sets_form = \<lparr>ed_name = Some (utf16 ''Squat''), ed_sets = Num 0, ed_reps = Num 0,
                      ed_weight = Num 40, ed_restTime = Num 60\<rparr>"

text \<open>
  A countdown of three seconds that is paused after its first tick, under each strategy;
  a countdown of thirty seconds on the main thread that is saved after ten ticks, ten
  seconds after its start, and restored into a new service five seconds later; and the
  same countdown saved after twenty seconds and restored fifteen seconds later.
\<close>

definition paused_after_first_tick :: "bool \<Rightarrow> timer_service" where
  "paused_after_first_tick worker =
     fst (pause (run (if worker then 2 else 1)
                   (fst (startCountdown (new_service worker) 3 no_options 0))) (1, 0) 1500)"

definition saved_at_20 :: timer_state where
  "saved_at_20 = saveState (run 10 (fst (startCountdown (new_service False) 30 no_options 0))) 10000"

definition restored_at_15 :: timer_service where
  "restored_at_15 = restoreState (new_service False) (Some saved_at_20) 15000"

definition saved_at_10 :: timer_state where
  "saved_at_10 = saveState (run 20 (fst (startCountdown (new_service False) 30 no_options 0))) 20000"

definition restored_late :: "bool \<Rightarrow> timer_service" where
  "restored_late worker = restoreState (new_service worker) (Some saved_at_10) 35000"




section \<open>The session invariant is preserved\<close>


lemma workouts_persist:
  "workouts (emit (updateWorkout s w now) e) = (workouts s)(wid w \<mapsto> w\<lparr>updatedAt := now\<rparr>)"
  by (simp add: emit_def updateWorkout_def)





lemma finishWorkout_Some:
  "workouts s i = Some w \<Longrightarrow>
   finishWorkout s i now =
     Inr (emit (updateWorkout s (w\<lparr>status := Completed, endTime := Some now,
                                   duration := (now - startTime w) div 1000\<rparr>) now)
            (WorkoutFinished (w\<lparr>status := Completed, endTime := Some now,
                                   duration := (now - startTime w) div 1000, updatedAt := now\<rparr>)),
          w\<lparr>status := Completed, endTime := Some now,
                                   duration := (now - startTime w) div 1000, updatedAt := now\<rparr>)"
  by (simp add: finishWorkout_def Let_def)





lemma js_index_SomeD:
  "js_index xs k = Some x \<Longrightarrow> 0 \<le> k \<and> nat k < length xs \<and> x = xs ! nat k"
  by (simp add: js_index_def split: if_splits)






section \<open>The workout engine: claims\<close>

lemmas fixture_defs = squat_def press_def gym_def as_logged_def zeroes_def
lemmas engine_defs = startWorkout_def getRoutine_def getExercisesByRoutine_def snapshot_def
  emit_def updateWorkout_def js_index_def

lemmas scenario_defs = started_def three_sets_def full_workout_def completeSet_def
  finishWorkout_def Let_def

text \<open>
  Claim C1 (full workout: after the fourth \<open>completeSet\<close> on a routine of two exercises
  with two sets each, the session is completed, has a duration and no current exercise).
  The code does not do this. On the last set \<open>completeSet\<close> calls \<open>finishWorkout\<close>, which
  reads the stored session again, completes and stores that copy, and then returns its own
  copy without storing it. The session returned by the fourth call is still active with
  duration 0; the stored session is completed with a duration, but it holds only three of
  the four sets, its index is still 1, and its current exercise is the second one.
\<close>

theorem full_workout_last_set_lost:
  "\<not> isl full_workout
   \<and> status (snd (projr full_workout)) = Active
   \<and> duration (snd (projr full_workout)) = 0
   \<and> getCurrentExercise (snd (projr full_workout)) = None
   \<and> map_option status (workouts (fst (projr full_workout)) ''w1'') = Some Completed
   \<and> map_option duration (workouts (fst (projr full_workout)) ''w1'') = Some 4
   \<and> map_option currentExerciseIndex (workouts (fst (projr full_workout)) ''w1'') = Some 1
   \<and> map_option (map completedSets \<circ> exercises) (workouts (fst (projr full_workout)) ''w1'')
       = Some [2, 1]
   \<and> map_option (map_option exerciseId \<circ> getCurrentExercise)
         (workouts (fst (projr full_workout)) ''w1'') = Some (Some ''e2'')"
  by (simp add: scenario_defs fixture_defs engine_defs getCurrentExercise_def)

text \<open>
  Claim C2 as stated (every mutating operation on a completed session fails, and a second
  \<open>finishWorkout\<close> never stamps the duration again) is false: on the completed session of
  the scenario a further \<open>finishWorkout\<close> succeeds and changes the stored duration from 4
  to 59, and \<open>updateExerciseWeight\<close> succeeds and changes a target weight.
\<close>

theorem completed_session_not_terminal:
  "map_option status (workouts (fst (projr full_workout)) ''w1'') = Some Completed
   \<and> map_option duration (workouts (fst (projr full_workout)) ''w1'') = Some 4
   \<and> \<not> isl (finishWorkout (fst (projr full_workout)) ''w1'' 60000)
   \<and> map_option duration
        (workouts (fst (projr (finishWorkout (fst (projr full_workout)) ''w1'' 60000))) ''w1'')
       = Some 59
   \<and> \<not> isl (updateExerciseWeight (fst (projr full_workout)) ''w1'' 0 (85 / 2) 60000)
   \<and> map_option (map targetWeight \<circ> exercises)
        (workouts (fst (projr (updateExerciseWeight (fst (projr full_workout)) ''w1'' 0 (85 / 2) 60000))) ''w1'')
       = Some [85 / 2, 20]"
  by (simp add: scenario_defs fixture_defs engine_defs updateExerciseWeight_def)

text \<open>
  Claim C2, amended. On a stored session whose status is completed, \<open>completeSet\<close>,
  \<open>pauseWorkout\<close> and \<open>resumeWorkout\<close> throw (the result carries no new service: nothing
  is written). \<open>finishWorkout\<close> and \<open>updateExerciseWeight\<close> test no status: the first
  succeeds, keeps the status and the exercises, and stamps \<open>endTime = now\<close> and
  \<open>duration = floor((now - startTime) / 1000)\<close> at every call; the second succeeds for
  every index inside the array and replaces that exercise's target weight.
\<close>

theorem completed_session_operations:
  assumes "workouts s i = Some w" and "status w = Completed"
  shows "completeSet s i sd now = Inl WorkoutNotFoundOrNotActive
    \<and> pauseWorkout s i now = Inl WorkoutNotFoundOrNotActive
    \<and> resumeWorkout s i now = Inl WorkoutNotFoundOrNotPaused
    \<and> (\<exists>s' w'. finishWorkout s i now = Inr (s', w')
          \<and> workouts s' (wid w) = Some w'
          \<and> status w' = Completed \<and> endTime w' = Some now
          \<and> duration w' = (now - startTime w) div 1000
          \<and> exercises w' = exercises w)
    \<and> (\<forall>k ex x. js_index (exercises w) k = Some ex \<longrightarrow>
          (\<exists>s' w'. updateExerciseWeight s i k x now = Inr (s', w')
             \<and> workouts s' (wid w) = Some w'
             \<and> status w' = Completed
             \<and> exercises w' = (exercises w)[nat k := ex\<lparr>targetWeight := x\<rparr>]))"
proof -
  have a: "completeSet s i sd now = Inl WorkoutNotFoundOrNotActive"
    using assms by (simp add: completeSet_def)
  have b: "pauseWorkout s i now = Inl WorkoutNotFoundOrNotActive"
    using assms by (simp add: pauseWorkout_def)
  have c: "resumeWorkout s i now = Inl WorkoutNotFoundOrNotPaused"
    using assms by (simp add: resumeWorkout_def)
  have d: "\<exists>s' w'. finishWorkout s i now = Inr (s', w')
          \<and> workouts s' (wid w) = Some w'
          \<and> status w' = Completed \<and> endTime w' = Some now
          \<and> duration w' = (now - startTime w) div 1000
          \<and> exercises w' = exercises w"
    using assms(1) by (simp add: finishWorkout_Some workouts_persist)
  have e: "\<exists>s' w'. updateExerciseWeight s i k x now = Inr (s', w')
             \<and> workouts s' (wid w) = Some w'
             \<and> status w' = Completed
             \<and> exercises w' = (exercises w)[nat k := ex\<lparr>targetWeight := x\<rparr>]"
    if "js_index (exercises w) k = Some ex" for k ex x
    using assms that by (simp add: updateExerciseWeight_def Let_def workouts_persist)
  show ?thesis using a b c d e by blast
qed

theorem completed_session_operations_witness:
  "workouts (fst (projr full_workout)) ''w1'' = Some (the (workouts (fst (projr full_workout)) ''w1''))
   \<and> status (the (workouts (fst (projr full_workout)) ''w1'')) = Completed
   \<and> completeSet (fst (projr full_workout)) ''w1'' as_logged 60000 = Inl WorkoutNotFoundOrNotActive
   \<and> map_option duration
        (workouts (fst (projr (finishWorkout (fst (projr full_workout)) ''w1'' 60000))) ''w1'')
       = Some ((60000 - 1000) div 1000)"
proof -
  have h1: "workouts (fst (projr full_workout)) ''w1'' = Some (the (workouts (fst (projr full_workout)) ''w1''))"
    by (simp add: scenario_defs fixture_defs engine_defs)
  have h2: "status (the (workouts (fst (projr full_workout)) ''w1'')) = Completed"
    by (simp add: scenario_defs fixture_defs engine_defs)
  have st: "startTime (the (workouts (fst (projr full_workout)) ''w1'')) = 1000"
    and wd: "wid (the (workouts (fst (projr full_workout)) ''w1'')) = ''w1''"
    by (simp_all add: scenario_defs fixture_defs engine_defs)
  note t = completed_session_operations[OF h1 h2, of as_logged 60000]
  from t obtain s' w' where f: "finishWorkout (fst (projr full_workout)) ''w1'' 60000 = Inr (s', w')"
    "workouts s' ''w1'' = Some w'" "duration w' = (60000 - 1000) div 1000"
    unfolding st wd by blast
  show ?thesis using h1 h2 t f by simp
qed

text \<open>
  Claim C10. On an active session with a current exercise, \<open>completeSet\<close> succeeds and
  appends one set to the current exercise of the session it returns; its reps are the
  exercise's target reps whenever the supplied reps are 0, absent or \<open>NaN\<close>, and the
  supplied value otherwise; likewise for the weight.
\<close>

theorem completeSet_falsy_fallback:
  assumes "workouts s i = Some w" and "status w = Active"
    and "js_index (exercises w) (currentExerciseIndex w) = Some cur"
  shows "\<exists>s' w' ex' done. completeSet s i sd now = Inr (s', w')
     \<and> js_index (exercises w') (currentExerciseIndex w) = Some ex'
     \<and> sets ex' = sets cur @ [done]
     \<and> (sd_reps sd = Num 0 \<or> sd_reps sd = Undefined \<or> sd_reps sd = NaN
          \<longrightarrow> reps done = targetReps cur)
     \<and> (sd_weight sd = Num 0 \<or> sd_weight sd = Undefined \<or> sd_weight sd = NaN
          \<longrightarrow> weight done = targetWeight cur)
     \<and> (\<forall>r. sd_reps sd = Num r \<and> r \<noteq> 0 \<longrightarrow> reps done = r)
     \<and> (\<forall>x. sd_weight sd = Num x \<and> x \<noteq> 0 \<longrightarrow> weight done = x)"
proof -
  define dn where "dn = \<lparr>setNumber = completedSets cur + 1,
                           reps = or_else (sd_reps sd) (targetReps cur),
                           weight = or_else (sd_weight sd) (targetWeight cur),
                           completedAt = now\<rparr>"
  define cur' where "cur' = cur\<lparr>sets := sets cur @ [dn], completedSets := completedSets cur + 1\<rparr>"
  have k: "0 \<le> currentExerciseIndex w" "nat (currentExerciseIndex w) < length (exercises w)"
    using js_index_SomeD[OF assms(3)] by simp_all
  have fin: "\<exists>sf wf. finishWorkout s i now = Inr (sf, wf)"
    using finishWorkout_Some[OF assms(1)] by blast
  have "\<exists>s' w'. completeSet s i sd now = Inr (s', w')
      \<and> exercises w' = (exercises w)[nat (currentExerciseIndex w) := cur']"
    using assms fin by (auto simp: completeSet_def Let_def dn_def cur'_def)
  then obtain s' w' where r: "completeSet s i sd now = Inr (s', w')"
      "exercises w' = (exercises w)[nat (currentExerciseIndex w) := cur']" by blast
  have idx: "js_index (exercises w') (currentExerciseIndex w) = Some cur'"
    using k r(2) by (simp add: js_index_def)
  have s: "sets cur' = sets cur @ [dn]" by (simp add: cur'_def)
  have p1: "sd_reps sd = Num 0 \<or> sd_reps sd = Undefined \<or> sd_reps sd = NaN
          \<longrightarrow> reps dn = targetReps cur" by (auto simp: dn_def)
  have p2: "sd_weight sd = Num 0 \<or> sd_weight sd = Undefined \<or> sd_weight sd = NaN
          \<longrightarrow> weight dn = targetWeight cur" by (auto simp: dn_def)
  have p3: "\<forall>r. sd_reps sd = Num r \<and> r \<noteq> 0 \<longrightarrow> reps dn = r" by (simp add: dn_def)
  have p4: "\<forall>x. sd_weight sd = Num x \<and> x \<noteq> 0 \<longrightarrow> weight dn = x" by (simp add: dn_def)
  show ?thesis using r(1) idx s p1 p2 p3 p4 by blast
qed

theorem completeSet_falsy_fallback_witness:
  "workouts (fst (projr started)) ''w1'' = Some (snd (projr started))
   \<and> status (snd (projr started)) = Active
   \<and> js_index (exercises (snd (projr started))) (currentExerciseIndex (snd (projr started)))
       = Some (snapshot squat)
   \<and> (\<exists>s' w' ex' done. completeSet (fst (projr started)) ''w1'' zeroes 2000 = Inr (s', w')
        \<and> js_index (exercises w') 0 = Some ex'
        \<and> sets ex' = [done] \<and> reps done = 5 \<and> weight done = 40)"
proof -
  have h1: "workouts (fst (projr started)) ''w1'' = Some (snd (projr started))"
    by (simp add: started_def fixture_defs engine_defs Let_def)
  have h2: "status (snd (projr started)) = Active"
    by (simp add: started_def fixture_defs engine_defs Let_def)
  have h3: "js_index (exercises (snd (projr started))) (currentExerciseIndex (snd (projr started)))
       = Some (snapshot squat)"
    by (simp add: started_def fixture_defs engine_defs Let_def)
  have i0: "currentExerciseIndex (snd (projr started)) = 0"
    by (simp add: started_def fixture_defs engine_defs Let_def)
  have z: "sd_reps zeroes = Num 0" "sd_weight zeroes = Num 0"
    by (simp_all add: zeroes_def)
  have t: "targetReps (snapshot squat) = 5" "targetWeight (snapshot squat) = 40"
    "sets (snapshot squat) = []"
    by (simp_all add: snapshot_def squat_def)
  show ?thesis
    using completeSet_falsy_fallback[OF h1 h2 h3, of zeroes 2000] h1 h2 h3
    unfolding i0 z t by auto
qed




text \<open>
  The general part of claim C1 holds: when a set completes the current exercise, the
  session returned has the index advanced by one and \<open>currentSet = 1\<close>; if the new index
  is past the last exercise, the service is the one \<open>finishWorkout\<close> leaves (the
  intermediate index is not stored), and otherwise the session returned is stored.
\<close>

lemma completeSet_last_set_of_exercise:
  assumes "workouts s i = Some w" and "status w = Active"
    and "js_index (exercises w) (currentExerciseIndex w) = Some cur"
    and "targetSets cur \<le> completedSets cur + 1"
  shows "\<exists>s' w'. completeSet s i sd now = Inr (s', w')
     \<and> currentExerciseIndex w' = currentExerciseIndex w + 1 \<and> currentSet w' = 1
     \<and> (if int (length (exercises w)) \<le> currentExerciseIndex w + 1
         then s' = fst (projr (finishWorkout s i now))
         else workouts s' (wid w) = Some w')"
proof (cases "int (length (exercises w)) \<le> currentExerciseIndex w + 1")
  case True
  obtain sf wf where fin: "finishWorkout s i now = Inr (sf, wf)"
    using finishWorkout_Some[OF assms(1)] by blast
  show ?thesis using assms True fin by (simp add: completeSet_def Let_def)
next
  case False
  show ?thesis using assms False by (simp add: completeSet_def Let_def workouts_persist)
qed

section \<open>Validation: claims\<close>

lemma validate_rejects_bad_name:
  "name_missing (ed_name e) \<Longrightarrow> validateExerciseData e ctx = Inl (NameRequired ctx)"
  by (simp add: validateExerciseData_def)

lemma name_missing_blank:
  "name_missing None" "name_missing (Some [])" "name_missing (Some (utf16 ''  ''))"
  "name_missing (Some [0x00A0, 0x0009, 0xFEFF])"
  by (simp_all add: name_missing_def trim_def is_space_def utf16_def)

lemma validate_rejects_negative:
  assumes "ed_sets e = Num n \<and> n < 0 \<or> ed_reps e = Num r \<and> r < 0
         \<or> ed_weight e = Num x \<and> x < 0 \<or> ed_restTime e = Num t \<and> t < 0"
  shows "isl (validateExerciseData e ctx)"
  using assms by (auto simp: validateExerciseData_def)

lemma validateRoutineData_rejects_bad_name:
  "name_missing (rd_name r) \<Longrightarrow> validateRoutineData r = Inl RoutineNameRequired"
  by (simp add: validateRoutineData_def)

text \<open>
  Claim C7 (every exercise input with an empty name, non-positive sets or reps, or a
  negative weight or rest time is rejected; in particular \<open>sets = 0\<close> and \<open>reps = 0\<close>).
  The code rejects an empty name and negative numbers, as the lemmas above show, but not
  zero: each numeric test is guarded by the truthiness of the field, and \<open>0\<close> is falsy.
  A form with a name, \<open>sets = 0\<close> and \<open>reps = 0\<close> passes \<open>validateExerciseData\<close>, and a
  routine holding it passes \<open>validateRoutineData\<close>.
\<close>

theorem validate_accepts_zero_sets_and_reps:
  "validateExerciseData zero_sets_form None = Inr ()
   \<and> validateRoutineData \<lparr>rd_name = Some (utf16 ''Legs''), rd_exercises = Some [zero_sets_form]\<rparr> = Inr ()
   \<and> isl (validateExerciseData (zero_sets_form\<lparr>ed_sets := Num (- 1)\<rparr>) None)"
  by (simp add: validateExerciseData_def validateRoutineData_def zero_sets_form_def
      name_missing_def trim_def is_space_def utf16_def)

section \<open>Formatting and parsing times: round trip\<close>

text \<open>On the safe integers rounding changes nothing.\<close>

lemma bitlen_le: "n < 2 ^ k \<Longrightarrow> bitlen n \<le> k"
proof (induction k arbitrary: n)
  case 0
  then show ?case by (subst bitlen.simps) simp
next
  case (Suc k)
  have "n div 2 < 2 ^ k" using Suc.prems by simp
  then have "bitlen (n div 2) \<le> k" by (rule Suc.IH)
  then show ?case by (subst bitlen.simps) simp
qed

lemma bitlen_bounds: "0 < n \<Longrightarrow> 2 ^ (bitlen n - 1) \<le> n \<and> n < 2 ^ bitlen n \<and> 0 < bitlen n"
proof (induction n rule: bitlen.induct)
  case (1 n)
  show ?case
  proof (cases "n = 1")
    case True
    have "bitlen 1 = Suc (bitlen 0)" by (subst bitlen.simps) simp
    also have "bitlen 0 = 0" by (subst bitlen.simps) simp
    finally show ?thesis using True by simp
  next
    case False
    then have h: "0 < n div 2" using "1.prems" by simp
    have n: "\<not> n \<le> 0" using "1.prems" by simp
    have ih: "2 ^ (bitlen (n div 2) - 1) \<le> n div 2 \<and> n div 2 < 2 ^ bitlen (n div 2)
        \<and> 0 < bitlen (n div 2)"
      using "1.IH"[OF n h] .
    have b: "bitlen n = Suc (bitlen (n div 2))" using n by (subst bitlen.simps) simp
    obtain m where m: "bitlen (n div 2) = Suc m" using ih by (cases "bitlen (n div 2)") simp_all
    have lo: "(2::int) ^ m \<le> n div 2" and hi: "n div 2 < 2 * 2 ^ m" using ih m by simp_all
    have "2 * (2::int) ^ m \<le> n" using lo by simp
    moreover have "n < 2 * (2 * 2 ^ m)" using hi by simp
    ultimately show ?thesis unfolding b m by simp
  qed
qed

lemma round_half_even_one: "round_half_even v 1 = v"
  by (simp add: round_half_even_def)

lemma round_half_even_ge: "0 < q \<Longrightarrow> p div q \<le> round_half_even p q"
  by (simp add: round_half_even_def Let_def)

lemma round_mag_small: "v < 2 ^ 53 \<Longrightarrow> round_mag v = v"
  using bitlen_le[of v 53] by (simp add: round_mag_def round_half_even_one)

lemma round_mag_large:
  assumes "2 ^ 53 \<le> v"
  shows "2 ^ 53 \<le> round_mag v"
proof -
  have p: "0 < v" using assms by (rule less_le_trans[rotated]) simp
  note b = bitlen_bounds[OF p]
  have "\<not> bitlen v \<le> 53"
  proof
    assume "bitlen v \<le> 53"
    then have "(2::int) ^ bitlen v \<le> 2 ^ 53" by (rule power_increasing) simp
    then show False using b assms by simp
  qed
  then obtain e where e: "bitlen v = 53 + Suc e" by (metis add_Suc_right less_imp_Suc_add not_le)
  have lo: "(2::int) ^ 52 * 2 ^ Suc e \<le> v"
    using b unfolding e by (simp add: power_add)
  have "(2::int) ^ 52 \<le> v div 2 ^ Suc e"
  proof -
    have "(2::int) ^ 52 * 2 ^ Suc e div 2 ^ Suc e \<le> v div 2 ^ Suc e"
      by (rule zdiv_mono1[OF lo]) simp
    then show ?thesis by simp
  qed
  also have "\<dots> \<le> round_half_even v (2 ^ Suc e)" by (rule round_half_even_ge) simp
  finally have m: "(2::int) ^ 52 \<le> round_half_even v (2 ^ Suc e)" .
  have "(2::int) ^ 53 = 2 ^ 52 * 2" by simp
  also have "\<dots> \<le> round_half_even v (2 ^ Suc e) * 2 ^ Suc e"
  proof (rule mult_mono[OF m])
    show "(2::int) \<le> 2 ^ Suc e" by simp
    show "0 \<le> round_half_even v (2 ^ Suc e)" using m by simp
  qed simp
  finally show ?thesis unfolding round_mag_def e by simp
qed

lemma round_int_small: "\<bar>v\<bar> < 2 ^ 53 \<Longrightarrow> round_int v = v"
  by (simp add: round_int_def round_mag_small mult_sgn_abs)

lemma shortest_from_small:
  assumes "0 \<le> x" and "x < 2 ^ 53"
  shows "shortest_from x j = x"
proof (induction j)
  case 0
  show ?case by simp
next
  case (Suc j)
  define u :: int where "u = 10 ^ Suc j"
  define lo where "lo = x div u * u"
  have u: "0 < u" by (simp add: u_def)
  have lo_le: "lo \<le> x" and lo_gt: "x < lo + u"
    unfolding lo_def using u
    by (simp_all add: minus_mod_eq_div_mult[symmetric] pos_mod_sign pos_mod_bound)
  have rl: "round_mag lo = lo" using lo_le assms by (intro round_mag_small) simp
  have rh: "round_mag (lo + u) \<noteq> x"
  proof (cases "lo + u < 2 ^ 53")
    case True
    then show ?thesis using lo_gt by (simp add: round_mag_small)
  next
    case False
    then have "2 ^ 53 \<le> round_mag (lo + u)" by (intro round_mag_large) simp
    then show ?thesis using assms by simp
  qed
  show ?case
  proof (cases "lo = x")
    case True
    then show ?thesis
      using rl rh u Suc unfolding shortest_from.simps Let_def u_def[symmetric] lo_def[symmetric]
      by simp
  next
    case False
    then show ?thesis
      using rl rh u Suc unfolding shortest_from.simps Let_def u_def[symmetric] lo_def[symmetric]
      by simp
  qed
qed

lemma round_half_even_div:
  assumes "0 \<le> n" and "0 < d" and "0 < K" and "d < 2 * K"
  shows "round_half_even (n * K) d div K = n div d"
proof -
  define q where "q = n div d"
  define r where "r = n mod d"
  have n: "n = q * d + r" by (simp add: q_def r_def)
  have r: "0 \<le> r" "r < d" using assms(2) by (simp_all add: r_def)
  have q: "0 \<le> q" using assms by (simp add: q_def pos_imp_zdiv_nonneg_iff)
  define t where "t = (r * K) div d"
  define R where "R = (r * K) mod d"
  have tR: "r * K = t * d + R" by (simp add: t_def R_def)
  have R: "0 \<le> R" "R < d" using assms(2) by (simp_all add: R_def)
  have t0: "0 \<le> t" using r assms by (simp add: t_def pos_imp_zdiv_nonneg_iff)
  have nK: "n * K = (q * K + t) * d + R"
    unfolding n using tR by (simp add: algebra_simps)
  have D: "(n * K) div d = q * K + t"
    unfolding nK using R assms(2) by (simp add: div_pos_pos_trivial)
  have M: "(n * K) mod d = R"
    unfolding nK using R assms(2) by (simp add: mod_pos_pos_trivial)
  have tK: "t < K"
  proof (rule ccontr)
    assume "\<not> t < K"
    then have "K * d \<le> t * d" using assms(2) by simp
    also have "\<dots> \<le> r * K" using tR R by simp
    finally have "d \<le> r" using assms(3) by simp
    then show False using r by simp
  qed
  have up: "t + 1 < K" if h: "d \<le> 2 * R"
  proof (rule ccontr)
    assume "\<not> t + 1 < K"
    then have t: "t = K - 1" using tK by simp
    have "2 * (r * K) = 2 * (K * d) - 2 * d + 2 * R"
      unfolding tR t by (simp add: algebra_simps)
    then have "2 * (K * d) - d \<le> 2 * (r * K)" using h by simp
    moreover have "r * K \<le> (d - 1) * K" using r assms(3) by simp
    ultimately have "2 * (K * d) - d \<le> 2 * ((d - 1) * K)" by simp
    then have "2 * K \<le> d" by (simp add: algebra_simps)
    then show False using assms(4) by simp
  qed
  have "round_half_even (n * K) d = q * K + t \<or>
        (round_half_even (n * K) d = q * K + t + 1 \<and> d \<le> 2 * R)"
    unfolding round_half_even_def Let_def D M by auto
  moreover have "(q * K + s) div K = q" if "0 \<le> s" and "s < K" for s
    using that assms(3) by (simp add: div_pos_pos_trivial)
  ultimately show ?thesis
    unfolding q_def[symmetric] using t0 tK up by (metis add.assoc add_nonneg_nonneg zero_le_one)
qed

text \<open>On the safe integers \<open>Math.floor(a / b)\<close> is the integer quotient.\<close>

lemma floor_quotient_small:
  assumes "0 \<le> a" and "a < 2 ^ 53" and "2 \<le> b"
  shows "floor_quotient a b = a div b"
proof (cases "a = 0")
  case True
  then show ?thesis by (simp add: floor_quotient_def)
next
  case False
  then have a: "0 < a" using assms(1) by simp
  have b: "0 < b" using assms(3) by simp
  note ba = bitlen_bounds[OF a]
  note bb = bitlen_bounds[OF b]
  have la: "bitlen a \<le> 53" using assms(2) by (rule bitlen_le)
  have lb: "2 \<le> bitlen b"
  proof (rule ccontr)
    assume "\<not> 2 \<le> bitlen b"
    then have "bitlen b \<le> 1" by simp
    then have "(2::int) ^ bitlen b \<le> 2 ^ 1" by (rule power_increasing) simp
    then show False using bb assms(3) by simp
  qed
  define k0 where "k0 = 53 + bitlen b - bitlen a"
  have e0: "int (bitlen a) - int (bitlen b) - 53 = - int k0"
    using la by (simp add: k0_def)
  have k0: "2 \<le> k0" using la lb by (simp add: k0_def)
  have lo0: "2 ^ 52 * b < a * 2 ^ k0"
  proof -
    obtain m where m: "bitlen a = Suc m" using ba by (cases "bitlen a") simp_all
    have k: "k0 + m = 52 + bitlen b" using la m by (simp add: k0_def)
    have "2 ^ 52 * b < 2 ^ 52 * 2 ^ bitlen b" using bb by simp
    also have "\<dots> = 2 ^ (52 + bitlen b)" by (simp only: power_add)
    also have "\<dots> = 2 ^ (m + k0)" using k by (simp only: add.commute)
    also have "\<dots> = 2 ^ m * 2 ^ k0" by (simp only: power_add)
    also have "\<dots> \<le> a * 2 ^ k0" using ba m by simp
    finally show ?thesis .
  qed
  define k where "k = (if a * 2 ^ k0 < 2 ^ 53 * b then k0 else k0 - 1)"
  have e: "(if a * 2 ^ nat (- (- int k0)) < 2 ^ 53 * b * 2 ^ nat (- int k0) then - int k0 else - int k0 + 1)
      = - int k"
    using k0 by (simp add: k_def)
  have k1: "1 \<le> k"
  proof -
    have "1 \<le> k0 - 1" using k0 by arith
    then show ?thesis using k0 by (simp add: k_def)
  qed
  have lo: "2 ^ 52 * b \<le> a * 2 ^ k"
  proof (cases "a * 2 ^ k0 < 2 ^ 53 * b")
    case True
    then show ?thesis using lo0 by (simp add: k_def)
  next
    case False
    obtain j where j: "k0 = Suc j" using k0 by (cases k0) simp_all
    have "2 * (2 ^ 52 * b) \<le> 2 * (a * 2 ^ j)" using False unfolding j by simp
    then show ?thesis using False by (simp add: k_def j)
  qed
  have "2 ^ 52 * b \<le> a * 2 ^ k" by (rule lo)
  also have "\<dots> < 2 ^ 53 * 2 ^ k" using assms(2) by simp
  finally have "2 ^ 52 * b < 2 ^ 52 * (2 * 2 ^ k)" by simp
  then have d: "b < 2 * 2 ^ k" by simp
  have m: "round_half_even (a * 2 ^ k) b div 2 ^ k = a div b"
    by (rule round_half_even_div[OF assms(1) b _ d]) simp
  have abs: "\<bar>a\<bar> = a" "sgn a = 1" using a by simp_all
  show ?thesis
    unfolding floor_quotient_def Let_def abs e0 e using False m by simp
qed

text \<open>Digits are printed and read back as they are.\<close>

lemma uint_digit_char: "0 \<le> d \<Longrightarrow> d < 10 \<Longrightarrow> uint (digit_char d) = 48 + d"
proof -
  have "uint (digit_char d) = take_bit 16 (48 + d)"
    by (simp only: digit_char_def uint_word_of_int_eq) simp
  also assume "0 \<le> d" and "d < 10"
  then have "take_bit 16 (48 + d) = 48 + d" by (intro take_bit_int_eq_self) simp_all
  finally show ?thesis .
qed

lemma is_digit_digit_char: "0 \<le> d \<Longrightarrow> d < 10 \<Longrightarrow> is_digit (digit_char d)"
  by (simp add: is_digit_def word_le_def uint_digit_char)

lemma digit_val_digit_char: "0 \<le> d \<Longrightarrow> d < 10 \<Longrightarrow> digit_val (digit_char d) = d"
  by (simp add: digit_val_def uint_digit_char)

lemma to_digits_all_digits: "0 \<le> n \<Longrightarrow> list_all is_digit (to_digits n)"
proof (induction n rule: to_digits.induct)
  case (1 n)
  show ?case
  proof (cases "n < 10")
    case True
    then show ?thesis using "1.prems" by (subst to_digits.simps) (simp add: is_digit_digit_char)
  next
    case False
    then have "list_all is_digit (to_digits (n div 10))"
      using 1 by (simp add: pos_imp_zdiv_nonneg_iff)
    moreover have "is_digit (digit_char (n mod 10))" by (simp add: is_digit_digit_char)
    ultimately show ?thesis using False by (subst to_digits.simps) simp
  qed
qed

lemma to_digits_nonempty: "to_digits n \<noteq> []"
  by (subst to_digits.simps) simp

lemma to_digits_length: "0 < k \<Longrightarrow> n < 10 ^ k \<Longrightarrow> length (to_digits n) \<le> k"
proof (induction k arbitrary: n)
  case 0
  then show ?case by simp
next
  case (Suc k)
  show ?case
  proof (cases "n < 10")
    case True
    then show ?thesis by (subst to_digits.simps) simp
  next
    case False
    then have k: "0 < k" using Suc.prems by (cases k) simp_all
    have "n div 10 < 10 ^ k" using Suc.prems by simp
    then have "length (to_digits (n div 10)) \<le> k" using Suc.IH k by simp
    then show ?thesis using False by (subst to_digits.simps) simp
  qed
qed

lemma parse_digits_append:
  "list_all is_digit xs \<Longrightarrow> parse_digits acc (xs @ ys) = parse_digits (parse_digits acc xs) ys"
  by (induction xs arbitrary: acc) simp_all

lemma parse_to_digits: "0 \<le> n \<Longrightarrow> parse_digits 0 (to_digits n) = n"
proof (induction n rule: to_digits.induct)
  case (1 n)
  show ?case
  proof (cases "n < 10")
    case True
    then show ?thesis
      using "1.prems" by (subst to_digits.simps) (simp add: is_digit_digit_char digit_val_digit_char)
  next
    case False
    have d: "0 \<le> n mod 10" "n mod 10 < 10" by simp_all
    have q: "0 \<le> n div 10" using "1.prems" by (simp add: pos_imp_zdiv_nonneg_iff)
    have "parse_digits 0 (to_digits n) = parse_digits 0 (to_digits (n div 10) @ [digit_char (n mod 10)])"
      using False by (subst to_digits.simps) simp
    also have "\<dots> = parse_digits (parse_digits 0 (to_digits (n div 10))) [digit_char (n mod 10)]"
      by (rule parse_digits_append) (rule to_digits_all_digits[OF q])
    also have "\<dots> = parse_digits (n div 10) [digit_char (n mod 10)]"
      using 1 False q by simp
    also have "\<dots> = (n div 10) * 10 + n mod 10"
      using d by (simp add: is_digit_digit_char digit_val_digit_char)
    finally show ?thesis by simp
  qed
qed

lemma is_digit_zero: "is_digit 0x30" and digit_val_zero: "digit_val 0x30 = 0"
  by (simp_all add: is_digit_def digit_val_def)

lemma parse_digits_zeros: "parse_digits 0 (replicate k 0x30 @ xs) = parse_digits 0 xs"
  by (induction k) (simp_all add: is_digit_zero digit_val_zero)

lemma digit_not_special:
  assumes "is_digit c"
  shows "c \<noteq> 0x3A \<and> c \<noteq> 0x2D \<and> c \<noteq> 0x2B \<and> \<not> is_space c"
proof -
  have "48 \<le> uint c" "uint c \<le> 57" using assms by (simp_all add: is_digit_def word_le_def)
  then show ?thesis by (auto simp: is_space_def word_le_def)
qed

lemma padded_all_digits: "0 \<le> n \<Longrightarrow> list_all is_digit (padStart2 (to_digits n))"
  using to_digits_all_digits[of n] by (auto simp: padStart2_def list_all_iff is_digit_zero)

lemma padded_nonempty: "padStart2 (to_digits n) \<noteq> []"
  by (simp add: padStart2_def to_digits_nonempty)

lemma parseInt_digits:
  assumes "list_all is_digit xs" and "xs \<noteq> []"
  shows "parseInt xs = Num (round_int (parse_digits 0 xs))"
proof -
  obtain c cs where xs: "xs = c # cs" using assms(2) by (cases xs) auto
  have c: "is_digit c" using assms(1) xs by simp
  then have "dropWhile is_space xs = xs" using xs digit_not_special by simp
  then show ?thesis using c xs digit_not_special[OF c] by (simp add: parseInt_def)
qed

lemma parseInt_padded:
  assumes "0 \<le> n" and "n < 2 ^ 53"
  shows "parseInt (padStart2 (to_digits n)) = Num n"
proof -
  have "parseInt (padStart2 (to_digits n)) = Num (round_int (parse_digits 0 (padStart2 (to_digits n))))"
    by (rule parseInt_digits) (rule padded_all_digits[OF assms(1)], rule padded_nonempty)
  also have "parse_digits 0 (padStart2 (to_digits n)) = n"
    unfolding padStart2_def using assms(1) by (simp only: parse_digits_zeros parse_to_digits)
  also have "round_int n = n" using assms by (intro round_int_small) simp
  finally show ?thesis .
qed

lemma split_on_no_sep: "c \<notin> set xs \<Longrightarrow> split_on c xs = [xs]"
  by (induction xs) auto

lemma split_on_first: "c \<notin> set xs \<Longrightarrow> split_on c (xs @ c # ys) = xs # split_on c ys"
  by (induction xs) auto

lemma padded_no_colon: "0 \<le> n \<Longrightarrow> 0x3A \<notin> set (padStart2 (to_digits n))"
  using padded_all_digits[of n] digit_not_special by (auto simp: list_all_iff)

lemma colon: "utf16 '':'' = [0x3A]"
  by (simp add: utf16_def)

text \<open>A safe integer is printed in full.\<close>

lemma toString_small:
  assumes "0 \<le> n" and "n < 2 ^ 53"
  shows "toString n = to_digits n"
proof (cases "n = 0")
  case True
  have "to_digits 0 = utf16 ''0''"
    by (subst to_digits.simps) (simp add: digit_char_def utf16_def)
  then show ?thesis using True by (simp add: toString_def number_to_string_def)
next
  case False
  have s: "shortest n = n" unfolding shortest_def by (rule shortest_from_small[OF assms])
  have "n < 10 ^ 21" using assms(2) by simp
  then have "length (to_digits n) \<le> 21" by (intro to_digits_length) simp_all
  then show ?thesis using False assms(1) by (simp add: toString_def number_to_string_def s)
qed

lemma js_rem_nonneg: "0 \<le> a \<Longrightarrow> 0 < b \<Longrightarrow> js_rem a b = a mod b"
  by (cases "a = 0") (simp_all add: js_rem_def)

lemma parseTime_two:
  assumes "0 \<le> m" and "0 \<le> s" and "m * 60 + s < 2 ^ 53"
  shows "parseTime (padStart2 (to_digits m) @ utf16 '':'' @ padStart2 (to_digits s)) = Num (m * 60 + s)"
proof -
  have b: "m < 2 ^ 53" "s < 2 ^ 53" "\<bar>m * 60\<bar> < 2 ^ 53" "\<bar>m * 60 + s\<bar> < 2 ^ 53"
    using assms by simp_all
  have "split_on 0x3A (padStart2 (to_digits m) @ 0x3A # padStart2 (to_digits s))
      = [padStart2 (to_digits m), padStart2 (to_digits s)]"
    using assms
    by (simp only: split_on_first[OF padded_no_colon] split_on_no_sep[OF padded_no_colon])
  then show ?thesis
    using assms b by (simp add: parseTime_def parseInt_padded colon round_int_small)
qed

lemma parseTime_three:
  assumes "0 \<le> h" and "0 \<le> m" and "0 \<le> s" and "h * 3600 + m * 60 + s < 2 ^ 53"
  shows "parseTime (padStart2 (to_digits h) @ utf16 '':'' @ padStart2 (to_digits m) @ utf16 '':''
                     @ padStart2 (to_digits s))
     = Num (h * 3600 + m * 60 + s)"
proof -
  have b: "h < 2 ^ 53" "m < 2 ^ 53" "s < 2 ^ 53" "\<bar>h * 3600\<bar> < 2 ^ 53" "\<bar>m * 60\<bar> < 2 ^ 53"
    "\<bar>h * 3600 + m * 60\<bar> < 2 ^ 53" "\<bar>h * 3600 + m * 60 + s\<bar> < 2 ^ 53"
    using assms by simp_all
  have "split_on 0x3A (padStart2 (to_digits h) @ 0x3A # padStart2 (to_digits m) @ 0x3A # padStart2 (to_digits s))
      = [padStart2 (to_digits h), padStart2 (to_digits m), padStart2 (to_digits s)]"
    using assms
    by (simp only: split_on_first[OF padded_no_colon] split_on_no_sep[OF padded_no_colon])
  then show ?thesis
    using assms b by (simp add: parseTime_def parseInt_padded colon round_int_small)
qed

lemma formatTime_short:
  assumes "0 \<le> s" and "s < 3600"
  shows "formatTime s False
     = padStart2 (to_digits (s div 60)) @ utf16 '':'' @ padStart2 (to_digits (s mod 60))"
proof -
  have s: "s < 2 ^ 53" using assms(2) by simp
  have h: "floor_quotient s 3600 = 0" using assms s by (simp add: floor_quotient_small)
  have m: "js_rem s 3600 = s" using assms by (simp add: js_rem_nonneg)
  have q: "floor_quotient s 60 = s div 60" using assms s by (simp add: floor_quotient_small)
  have c: "js_rem s 60 = s mod 60" using assms by (simp add: js_rem_nonneg)
  have p: "0 \<le> s div 60" "0 \<le> s mod 60" "s div 60 < 2 ^ 53" "s mod 60 < 2 ^ 53"
    using assms by (simp_all add: pos_imp_zdiv_nonneg_iff)
  show ?thesis
    unfolding formatTime_def Let_def h m q c using p
    by (simp add: toString_small)
qed

lemma formatTime_long:
  assumes "0 \<le> s" and "s < 2 ^ 53" and "includeHours \<or> 3600 \<le> s"
  shows "formatTime s includeHours
     = padStart2 (to_digits (s div 3600)) @ utf16 '':''
       @ padStart2 (to_digits (s mod 3600 div 60)) @ utf16 '':''
       @ padStart2 (to_digits (s mod 60))"
proof -
  have h: "floor_quotient s 3600 = s div 3600" using assms by (simp add: floor_quotient_small)
  have g: "includeHours \<or> s div 3600 > 0" using assms by auto
  have m: "js_rem s 3600 = s mod 3600" using assms by (simp add: js_rem_nonneg)
  have q: "floor_quotient (s mod 3600) 60 = s mod 3600 div 60"
    by (rule floor_quotient_small) simp_all
  have c: "js_rem s 60 = s mod 60" using assms by (simp add: js_rem_nonneg)
  have p: "0 \<le> s div 3600" "0 \<le> s mod 3600 div 60" "0 \<le> s mod 60"
    using assms by (simp_all add: pos_imp_zdiv_nonneg_iff)
  have d: "0 \<le> x \<Longrightarrow> x div k \<le> x" if "0 < k" for x k :: int
  proof -
    assume x: "0 \<le> x"
    have "x div k * 1 \<le> x div k * k" using that x
      by (intro mult_left_mono) (simp_all add: pos_imp_zdiv_nonneg_iff)
    also have "\<dots> \<le> x" using that by (simp add: minus_mod_eq_div_mult[symmetric])
    finally show ?thesis by simp
  qed
  have "s div 3600 \<le> s" using assms(1) by (intro d) simp_all
  then have b1: "s div 3600 < 2 ^ 53" using assms(2) by simp
  have "s mod 3600 div 60 \<le> s mod 3600" by (intro d) simp_all
  also have "\<dots> < 3600" by simp
  finally have b2: "s mod 3600 div 60 < 2 ^ 53" by simp
  have b3: "s mod 60 < 2 ^ 53" by (rule less_trans[of _ 60]) simp_all
  show ?thesis
    unfolding formatTime_def Let_def h m q c using p g b1 b2 b3
    by (simp add: toString_small)
qed

lemma hms_recompose:
  fixes s :: int
  shows "s div 3600 * 3600 + s mod 3600 div 60 * 60 + s mod 60 = s"
proof -
  have a: "s mod 3600 div 60 * 60 + s mod 60 = s mod 3600"
  proof -
    have "s mod 3600 mod 60 = s mod 60" by (simp add: mod_mod_cancel)
    then show ?thesis using div_mult_mod_eq[of "s mod 3600" 60] by simp
  qed
  have b: "s div 3600 * 3600 + (s mod 3600 div 60 * 60 + s mod 60) = s"
    unfolding a by simp
  show ?thesis using b by (simp add: add.assoc)
qed

text \<open>
  Claim C8 as stated, for every non-negative integer, is false: the numbers are doubles.
  From \<open>1e21\<close> on \<open>toString\<close> prints exponent notation, of which \<open>parseInt\<close> reads the
  digits before the point: \<open>2 ^ 82\<close> seconds are printed with
  \<open>1.3432509106829213e+21\<close> hours and read back as 3904. Below that the sums of
  \<open>parseTime\<close> are rounded: \<open>2 ^ 55 + 56\<close> is printed exactly, as
  \<open>10007999171934:27:04\<close>, and read back as \<open>2 ^ 55 + 48\<close>.
\<close>

theorem parseTime_formatTime_large:
  "formatTime (2 ^ 82) True = utf16 ''1.3432509106829213e+21:05:04''
   \<and> parseTime (formatTime (2 ^ 82) True) = Num 3904
   \<and> round_int (2 ^ 82) = 2 ^ 82
   \<and> formatTime 36028797018964024 True = utf16 ''10007999171934:27:04''
   \<and> parseTime (formatTime 36028797018964024 True) = Num 36028797018964016
   \<and> round_int 36028797018964024 = 36028797018964024"
  by code_simp

text \<open>
  Claim C8, amended. For every safe integer \<open>s\<close>, from 0 to \<open>2 ^ 53 - 1\<close>
  (\<open>Number.MAX_SAFE_INTEGER\<close>), \<open>parseTime (formatTime s true)\<close> is \<open>s\<close>, and
  \<open>parseTime (formatTime s)\<close> is \<open>s\<close> when \<open>s\<close> formats without an hours component, that is
  below 3600.
\<close>

theorem parseTime_formatTime:
  assumes "0 \<le> s" and "s \<le> 9007199254740991"
  shows "(s < 3600 \<longrightarrow> parseTime (formatTime s False) = Num s)
       \<and> parseTime (formatTime s True) = Num s"
proof
  have b: "s < 2 ^ 53" using assms(2) by simp
  show "s < 3600 \<longrightarrow> parseTime (formatTime s False) = Num s"
  proof
    assume l: "s < 3600"
    have p: "0 \<le> s div 60" "0 \<le> s mod 60" "s div 60 * 60 + s mod 60 < 2 ^ 53"
      using assms(1) b by (simp_all add: pos_imp_zdiv_nonneg_iff)
    have "parseTime (formatTime s False) = Num (s div 60 * 60 + s mod 60)"
      unfolding formatTime_short[OF assms(1) l] by (rule parseTime_two[OF p])
    then show "parseTime (formatTime s False) = Num s" by simp
  qed
  have p: "0 \<le> s div 3600" "0 \<le> s mod 3600 div 60" "0 \<le> s mod 60"
    using assms(1) by (simp_all add: pos_imp_zdiv_nonneg_iff)
  have q: "s div 3600 * 3600 + s mod 3600 div 60 * 60 + s mod 60 < 2 ^ 53"
    unfolding hms_recompose by (rule b)
  have "formatTime s True
     = padStart2 (to_digits (s div 3600)) @ utf16 '':''
       @ padStart2 (to_digits (s mod 3600 div 60)) @ utf16 '':''
       @ padStart2 (to_digits (s mod 60))"
    using formatTime_long[OF assms(1) b, of True] by simp
  then have "parseTime (formatTime s True)
      = Num (s div 3600 * 3600 + s mod 3600 div 60 * 60 + s mod 60)"
    using parseTime_three[OF p q] by simp
  then show "parseTime (formatTime s True) = Num s" unfolding hms_recompose .
qed

theorem parseTime_formatTime_witness:
  "(0::int) \<le> 754 \<and> (754::int) \<le> 9007199254740991
   \<and> formatTime 754 False = utf16 ''12:34'' \<and> parseTime (formatTime 754 False) = Num 754
   \<and> formatTime 754 True = utf16 ''00:12:34'' \<and> parseTime (formatTime 754 True) = Num 754"
proof -
  have h: "(0::int) \<le> 754" "(754::int) \<le> 9007199254740991" by simp_all
  have a: "formatTime 754 False = utf16 ''12:34''"
    by code_simp
  have b: "formatTime 754 True = utf16 ''00:12:34''"
    by code_simp
  show ?thesis using parseTime_formatTime[OF h] a b by simp
qed

section \<open>A countdown runs to its end\<close>

lemma events_emit_tick:
  "events (emit_tick s i r e) = events s @ tick_log (restHooks s) i r e"
  by (simp add: emit_tick_def tick_log_def)

lemma events_emit_complete:
  "events (emit_complete s i) = events s @ complete_log (restHooks s) i"
  by (simp add: emit_complete_def complete_log_def)



lemma drop_toWorker: "toWorker s = [] \<Longrightarrow> s\<lparr>toWorker := []\<rparr> = s"
  by (cases s) simp

lemma drop_toMain: "toMain s = [] \<Longrightarrow> s\<lparr>toMain := []\<rparr> = s"
  by (cases s) simp









lemma spread_no_field: "carries_no_field opts \<Longrightarrow> spread t opts = t"
  by (simp add: carries_no_field_def spread_def)

lemma no_options_no_field: "carries_no_field no_options"
  by (simp add: carries_no_field_def no_options_def)


































section \<open>The timer service: claims\<close>

lemma run_numeral: "run (numeral k) s = run (pred_numeral k) (step s)"
  by (simp add: numeral_eq_Suc)

lemmas timer_defs = new_service_def no_options_def startCountdown_def generateTimerId_def
  spread_def set_key_def post_def startMainThreadTimer_def schedule_def step_def
  worker_receive_def main_receive_def worker_timeout_def main_timeout_def
  w_updateTimer_def postMessage_def handleWorkerMessage_def m_updateTimer_def
  emit_tick_def emit_complete_def emit_plain_def on_tick_def on_complete_def
  pause_def getTimer_def clearTimeout_def idle_def Let_def

lemmas restore_defs = saveState_def save_one_def restoreState_def restore_one_def as_options_def

lemma stopped_timer_is_silent:
  "events (run 6 (fst (stop (run (if worker then 2 else 1)
             (fst (startCountdown (new_service worker) 3 no_options 0))) (1, 0))))
     = [Tick (1, 0) 2 1, StoppedEvent (1, 0)]
   \<and> idle (run 6 (fst (stop (run (if worker then 2 else 1)
             (fst (startCountdown (new_service worker) 3 no_options 0))) (1, 0))))"
  by (cases worker) (simp_all add: run_numeral timer_defs stop_def)

text \<open>
  Claim C3 (a countdown of \<open>N\<close> seconds emits \<open>N\<close> ticks down to 0 and one \<open>complete\<close>, and
  no tick is emitted for a stopped or paused timer, identically under both strategies).
  The ticks of a running countdown are as claimed under both strategies (lemma
  \<open>countdown_emits_N_ticks\<close>), and a stopped timer is silent under both (lemma
  \<open>stopped_timer_is_silent\<close>), but a paused timer is not: the worker script's \<open>pause\<close> only clears the flag \<open>active\<close>, which
  \<open>updateTimer\<close> never reads, so the worker goes on ticking and the main thread relays the
  ticks. Pause a three-second countdown after its first tick: on the main thread nothing
  follows \<open>paused\<close> and the timer stays at \<open>remaining = 2\<close>; with the worker the ticks 1 and
  0 and \<open>complete\<close> follow \<open>paused\<close>, and the paused timer is gone.
\<close>

theorem worker_ticks_while_paused:
  "events (run 6 (paused_after_first_tick False)) = [Tick (1, 0) 2 1, PausedEvent (1, 0)]
   \<and> map_option t_remaining (getTimer (run 6 (paused_after_first_tick False)) (1, 0)) = Some 2
   \<and> map_option t_status (getTimer (paused_after_first_tick True) (1, 0)) = Some Halted
   \<and> events (run 6 (paused_after_first_tick True))
       = [Tick (1, 0) 2 1, PausedEvent (1, 0), Tick (1, 0) 1 2, Tick (1, 0) 0 3, Complete (1, 0)]
   \<and> getTimer (run 6 (paused_after_first_tick True)) (1, 0) = None"
  by (simp add: paused_after_first_tick_def run_numeral timer_defs)

text \<open>
  Claim C4 (a running countdown is restored with \<open>remaining = duration - (realElapsed +
  timeLapsed)\<close> and resumes ticking when that is positive, and completes at once when it is
  not). \<open>restoreState\<close> computes that value and passes it to \<open>startCountdown\<close>, but with
  the saved timer spread into the options, and \<open>startCountdown\<close> spreads the options over
  its own fields. The restored object therefore keeps the saved \<open>remaining\<close>, \<open>duration\<close>
  and \<open>id\<close>. For a thirty-second countdown saved at \<open>remaining = 20\<close>, ten seconds after
  its start, and restored five seconds later, the value computed is 15, but the timer
  restored has \<open>remaining = 20\<close>; on the main thread its callback looks its old \<open>id\<close> up
  in \<open>activeTimers\<close>, does not find it, and returns: the timer never ticks.
\<close>

theorem restored_timer_keeps_saved_remaining:
  "map (\<lambda>(k, d). (k, t_duration d, t_remaining d, realElapsed d)) (st_timers saved_at_20)
     = [((1, 0), 30, 20, 10)]
   \<and> activeTimers restored_at_15 = [(1, 15000)]
   \<and> map_option t_remaining (getTimer restored_at_15 (1, 15000)) = Some 20
   \<and> map_option t_id (getTimer restored_at_15 (1, 15000)) = Some (1, 0)
   \<and> \<not> idle restored_at_15
   \<and> idle (step restored_at_15)
   \<and> events (step restored_at_15) = []
   \<and> map_option t_remaining (getTimer (step restored_at_15) (1, 15000)) = Some 20"
  by (simp add: saved_at_20_def restored_at_15_def restore_defs run_numeral timer_defs)

lemma restored_after_deadline_completes:
  "map (\<lambda>(k, d). (k, t_duration d, t_remaining d, realElapsed d)) (st_timers saved_at_10)
     = [((1, 0), 30, 10, 20)]
   \<and> events (restored_late worker) = [Complete (1, 0)]
   \<and> activeTimers (restored_late worker) = []
   \<and> idle (restored_late worker)"
  by (simp add: saved_at_10_def restored_late_def restore_defs run_numeral timer_defs)

text \<open>
  Claim C5 as stated (\<open>startCountdown\<close> fails for a duration \<open>d \<le> 0\<close> and creates no timer)
  is false: \<open>startCountdown\<close> tests nothing. With duration 0 it registers a running timer
  with \<open>remaining = 0\<close>, whose first tick carries \<open>remaining = -1\<close>.
\<close>

theorem startCountdown_accepts_zero:
  "snd (startCountdown (new_service False) 0 no_options 1000) = (1, 1000)
   \<and> activeTimers (fst (startCountdown (new_service False) 0 no_options 1000)) = [(1, 1000)]
   \<and> map_option (\<lambda>t. (t_status t, t_remaining t))
        (getTimer (fst (startCountdown (new_service False) 0 no_options 1000)) (1, 1000))
       = Some (Running, 0)
   \<and> events (step (fst (startCountdown (new_service False) 0 no_options 1000)))
       = [Tick (1, 1000) (- 1) 1, Complete (1, 1000)]"
  by (simp add: timer_defs)

text \<open>
  Claim C5, amended. For every duration \<open>d\<close>, positive or not, and options that carry no
  field of a timer, \<open>startCountdown\<close> raises no error: it returns a new identifier and
  registers under it a running countdown with \<open>duration = remaining = d\<close> and
  \<open>elapsed = 0\<close>.
\<close>

theorem startCountdown_creates_timer:
  assumes "carries_no_field opts"
  shows "snd (startCountdown s d opts now) = (nextTimerId s, now)
   \<and> getTimer (fst (startCountdown s d opts now)) (nextTimerId s, now)
       = Some \<lparr>t_id = (nextTimerId s, now), t_type = Countdown, t_duration = d,
               t_remaining = d, t_elapsed = 0, t_status = Running, t_startTime = now,
               t_pausedTime = None,
               t_intervalId = (if useWorker s then None else Some (nextHandle s))\<rparr>
   \<and> nextTimerId (fst (startCountdown s d opts now)) = nextTimerId s + 1"
  by (simp add: startCountdown_def generateTimerId_def spread_no_field[OF assms] set_key_def
      post_def startMainThreadTimer_def schedule_def getTimer_def Let_def)

theorem startCountdown_creates_timer_witness:
  "carries_no_field no_options
   \<and> snd (startCountdown (new_service True) (- 5) no_options 1000) = (1, 1000)
   \<and> map_option (\<lambda>t. (t_status t, t_remaining t, t_duration t))
        (getTimer (fst (startCountdown (new_service True) (- 5) no_options 1000)) (1, 1000))
       = Some (Running, - 5, - 5)"
proof -
  have h: "carries_no_field no_options" by (rule no_options_no_field)
  have n: "nextTimerId (new_service True) = 1" by (simp add: new_service_def)
  show ?thesis
    using startCountdown_creates_timer[OF h, of "new_service True" "- 5" 1000] h
    unfolding n by simp
qed




end
